theory Spec2Isabelle
  imports Main "HOL-Library.Sublist" "HOL-Library.AList"
begin

section \<open>Values and exceptions of the Python program\<close>

text \<open>
  A shallow embedding of \<^verbatim>\<open>create_roles_overview.py\<close>: the graph-building part
  (\<^verbatim>\<open>get_yaml_content\<close>, \<^verbatim>\<open>set_role_attributes\<close>, \<^verbatim>\<open>set_play_attributes\<close>,
  \<^verbatim>\<open>add_dependencies\<close>, \<^verbatim>\<open>generate_projects_data\<close>).

  A parsed YAML document, as \<^verbatim>\<open>yaml.safe_load\<close> returns it: \<^verbatim>\<open>None\<close>, an
  integer, a string, a list, or a dict with string keys, its items in insertion order
  and its keys distinct. A YAML boolean is the integer 1 or 0 (Python's \<^verbatim>\<open>bool\<close> is a
  subclass of \<^verbatim>\<open>int\<close>, equal to and hashed as that integer, and no operation of the
  program tells them apart). Floats and timestamps are not modelled.
\<close>

datatype yaml =
    YNull
  | YInt int
  | YStr string
  | YList "yaml list"
  | YMap "(string \<times> yaml) list"

text \<open>
  The exceptions that reach the program. \<^verbatim>\<open>SystemExit n\<close> is \<^verbatim>\<open>sys.exit(n)\<close>; the two
  Gitlab exceptions carry \<^verbatim>\<open>str(e)\<close>; \<^verbatim>\<open>OtherError\<close> stands for whatever else a
  library call raises (a YAML parse error, a connection error). A function that can
  raise returns \<open>exn + 'a\<close>, \<open>Inl\<close> being the exception that leaves it.
\<close>

datatype exn =
    SystemExit nat
  | KeyError yaml
  | TypeError
  | AttributeError
  | GitlabHttpError string
  | GitlabGetError string
  | OtherError string

text \<open>What \<^verbatim>\<open>cprint(template.format(args), colour)\<close> writes to the console.\<close>

datatype colour = Red | Blue | Yellow

datatype arg = AStr string | AVal yaml | AExn exn

datatype msg = Msg colour string "arg list"

subsection \<open>Python's operators on parsed documents\<close>

text \<open>\<^verbatim>\<open>if content:\<close> -- the truth value of a document.\<close>

fun truthy :: "yaml \<Rightarrow> bool" where
  "truthy YNull = False"
| "truthy (YInt i) = (i \<noteq> 0)"
| "truthy (YStr s) = (s \<noteq> [])"
| "truthy (YList l) = (l \<noteq> [])"
| "truthy (YMap m) = (m \<noteq> [])"

text \<open>\<^verbatim>\<open>isinstance(content, str)\<close>\<close>

fun isinstance_str :: "yaml \<Rightarrow> bool" where
  "isinstance_str (YStr s) = True"
| "isinstance_str v = False"

text \<open>
  \<^verbatim>\<open>v[k]\<close> for a string \<open>k\<close>: a dict looks the key up and raises \<^verbatim>\<open>KeyError\<close> when it
  is missing; a string or a list wants an integer index, and \<^verbatim>\<open>None\<close> and integers
  are not subscriptable (\<^verbatim>\<open>TypeError\<close>).
\<close>

fun subscript :: "yaml \<Rightarrow> string \<Rightarrow> exn + yaml" where
  "subscript (YMap m) k = (case map_of m k of None \<Rightarrow> Inl (KeyError (YStr k)) | Some v \<Rightarrow> Inr v)"
| "subscript v k = Inl TypeError"

text \<open>
  \<^verbatim>\<open>k in v\<close> for a string \<open>k\<close>: a key of a dict, a substring of a string, an element
  of a list; \<^verbatim>\<open>None\<close> and integers are not iterable.
\<close>

fun py_in :: "string \<Rightarrow> yaml \<Rightarrow> exn + bool" where
  "py_in k (YMap m) = Inr (map_of m k \<noteq> None)"
| "py_in k (YStr s) = Inr (sublist k s)"
| "py_in k (YList l) = Inr (YStr k \<in> set l)"
| "py_in k v = Inl TypeError"

text \<open>\<^verbatim>\<open>len(v)\<close>\<close>

fun py_len :: "yaml \<Rightarrow> exn + nat" where
  "py_len (YMap m) = Inr (length m)"
| "py_len (YStr s) = Inr (length s)"
| "py_len (YList l) = Inr (length l)"
| "py_len v = Inl TypeError"

text \<open>
  \<^verbatim>\<open>for dep in v\<close>: the elements of a list, the keys of a dict, the one-character
  strings of a string.
\<close>

fun py_iter :: "yaml \<Rightarrow> exn + yaml list" where
  "py_iter (YList l) = Inr l"
| "py_iter (YMap m) = Inr (map (\<lambda>kv. YStr (fst kv)) m)"
| "py_iter (YStr s) = Inr (map (\<lambda>c. YStr [c]) s)"
| "py_iter v = Inl TypeError"

text \<open>Lists and dicts are unhashable: using one as a dict key raises \<^verbatim>\<open>TypeError\<close>.\<close>

fun hashable :: "yaml \<Rightarrow> bool" where
  "hashable (YList l) = False"
| "hashable (YMap m) = False"
| "hashable v = True"

text \<open>
  A Python dict is an association list in insertion order with distinct keys:
  \<^verbatim>\<open>d[k]\<close> is \<^const>\<open>map_of\<close>, and \<^verbatim>\<open>d[k] = v\<close> is \<^const>\<open>AList.update\<close>, which
  replaces the value of a key in place and appends a new key at the end.
\<close>

subsection \<open>\<^verbatim>\<open>str\<close> of a non-negative integer\<close>

definition digit_char :: "nat \<Rightarrow> char" where
  "digit_char d = char_of (48 + d)"

function str_nat :: "nat \<Rightarrow> string" where
  "str_nat n = (if n < 10 then [digit_char n] else str_nat (n div 10) @ [digit_char (n mod 10)])"
  by pat_completeness auto
termination
  by (relation "measure (\<lambda>n. n)") auto

declare str_nat.simps [simp del]

subsection \<open>The regular expressions\<close>

definition newline :: char where
  "newline = CHR 0x0A"

definition slash :: char where
  "slash = CHR ''/''"

text \<open>
  \<^verbatim>\<open>re.match("^(.+)/[^/]+$", s)\<close>, and \<^verbatim>\<open>.group(1)\<close> of the match. The class
  \<^verbatim>\<open>[^/]+\<close> must reach the end of the string, so the \<^verbatim>\<open>/\<close> of the pattern is the last
  one of \<open>s\<close> and what follows it is not empty; \<^verbatim>\<open>(.+)\<close> is all that stands before
  that slash: not empty, and free of newlines, which \<^verbatim>\<open>.\<close> does not match.
  \<open>None\<close> is Python's \<^verbatim>\<open>None\<close>: no match.
\<close>

definition match_group :: "string \<Rightarrow> string option" where
  "match_group s =
     (let last_segment = rev (takeWhile (\<lambda>c. c \<noteq> slash) (rev s));
          upto_slash = rev (dropWhile (\<lambda>c. c \<noteq> slash) (rev s))
      in if upto_slash = [] then None
         else let g = butlast upto_slash
              in if g \<noteq> [] \<and> newline \<notin> set g \<and> last_segment \<noteq> []
                 then Some g else None)"

text \<open>
  A pattern taken from the configuration (the host in the source URL pattern, a path
  filter) is an arbitrary regular expression. The model reads the patterns made of
  literal characters and \<^verbatim>\<open>.\<close> (any character but a newline); \<open>plain_pattern\<close> says
  that a pattern has no other metacharacter. \<open>plain_match p s\<close> matches \<open>p\<close> at the
  start of \<open>s\<close> and returns the rest of \<open>s\<close>. For a pattern that is not plain,
  \<open>plain_match\<close> takes the other metacharacters for literal characters, which is not
  what Python does with them (a quantifier, a group, a class, or \<^verbatim>\<open>re.error\<close> for a
  malformed pattern): \<open>re_match\<close> and \<open>match_src\<close> below are \<^verbatim>\<open>re.match\<close> for plain
  patterns only. A property that rests on the answer of a match is stated for a plain
  pattern; the others hold whatever the answer is.
\<close>

definition metachars :: string where
  "metachars = CHR 0x5C # ''^$*+?{}[]|()''"

definition plain_pattern :: "string \<Rightarrow> bool" where
  "plain_pattern p = list_all (\<lambda>c. c \<notin> set metachars) p"

fun plain_match :: "string \<Rightarrow> string \<Rightarrow> string option" where
  "plain_match [] s = Some s"
| "plain_match (p # ps) [] = None"
| "plain_match (p # ps) (c # cs) =
     (if (if p = CHR ''.'' then c \<noteq> newline else c = p) then plain_match ps cs else None)"

text \<open>\<^verbatim>\<open>re.match(path, p.path_with_namespace)\<close> as a truth value.\<close>

definition re_match :: "string \<Rightarrow> string \<Rightarrow> bool" where
  "re_match pattern s = (plain_match pattern s \<noteq> None)"

text \<open>\<^verbatim>\<open>GITLAB_URL.replace('https://', '')\<close>: every occurrence, left to right.\<close>

function remove_https :: "string \<Rightarrow> string" where
  "remove_https [] = []"
| "remove_https (c # cs) =
     (if prefix ''https://'' (c # cs) then remove_https (drop 8 (c # cs))
      else c # remove_https cs)"
  by pat_completeness auto
termination
  by (relation "measure length") auto

text \<open>
  \<^verbatim>\<open>re.match(pattern, src)\<close> and \<^verbatim>\<open>.group(1)\<close> of the match, where the pattern
  is \<^verbatim>\<open>^git@\<close>, the host, and \<^verbatim>\<open>:(.+).git$\<close>. After \<^verbatim>\<open>git@\<close>, the host and \<^verbatim>\<open>:\<close>, the rest must end in one character
  (the unescaped \<^verbatim>\<open>.\<close>) and \<^verbatim>\<open>git\<close>, at the end of the string or before its final
  newline (\<^verbatim>\<open>$\<close>); the group is what stands before that character, not empty and
  free of newlines.
\<close>

definition match_tail :: "string \<Rightarrow> string option" where
  "match_tail r =
     (let core = (if suffix ''git'' r then Some (take (length r - 3) r)
                  else if suffix (''git'' @ [newline]) r then Some (take (length r - 4) r)
                  else None)
      in case core of
           None \<Rightarrow> None
         | Some c \<Rightarrow> if 2 \<le> length c \<and> newline \<notin> set c then Some (butlast c) else None)"

definition match_src :: "string \<Rightarrow> string \<Rightarrow> string option" where
  "match_src GITLAB_URL src =
     (case plain_match (''git@'' @ remove_https GITLAB_URL @ '':'') src of
        None \<Rightarrow> None
      | Some r \<Rightarrow> match_tail r)"


section \<open>The repository snapshot and the entities\<close>

text \<open>
  One repository as the Gitlab API shows it. \<^verbatim>\<open>gl.projects.get(p.id)\<close> returns the
  full object of the same repository, so one record holds the attributes of both.
  \<open>repository_tree path\<close> is \<^verbatim>\<open>project.repository_tree(path=path,
  ref=project.default_branch)\<close>: the entries of the directory, each a file name with
  its blob id, or the exception the call raises. \<open>repository_blob id\<close> is
  \<^verbatim>\<open>yaml.safe_load(base64.b64decode(project.repository_blob(id)['content']))\<close>: the
  parsed file, or the exception that retrieving or parsing it raises. \<open>tags_list\<close>
  is the names of \<^verbatim>\<open>project.tags.list()\<close>.
\<close>

record project =
  project_id :: nat
  project_name :: string
  archived :: bool
  path_with_namespace :: string
  ssh_url_to_repo :: string
  project_web_url :: string
  tags_list :: "exn + string list"
  repository_tree :: "string \<Rightarrow> exn + (string \<times> string) list"
  repository_blob :: "string \<Rightarrow> exn + yaml"

text \<open>
  An entry of \<^verbatim>\<open>projects_data\<close>: the dict that \<^verbatim>\<open>set_role_attributes\<close>,
  \<^verbatim>\<open>set_play_attributes\<close> or the reconciliation builds. A play has no
  \<^verbatim>\<open>description\<close>, \<^verbatim>\<open>platforms\<close> and \<^verbatim>\<open>galaxy_tags\<close> keys (\<open>None\<close>). \<open>state\<close> is
  one of the strings \<^verbatim>\<open>role\<close>, \<^verbatim>\<open>play\<close>, \<^verbatim>\<open>role_extern\<close>, \<^verbatim>\<open>role_unknown\<close>.
\<close>

record entity =
  description :: "yaml option"
  platforms :: "yaml option"
  galaxy_tags :: "yaml option"
  state :: string
  name :: yaml
  url :: string
  web_url :: string
  group :: string
  git_tags :: "string list"
  used_by :: "string list"

section \<open>Metadata Fetcher: \<^verbatim>\<open>get_yaml_content\<close>\<close>

definition not_found :: string where
  "not_found = ''404: 404 Tree Not Found''"

definition get_yaml_content ::
  "project \<Rightarrow> string \<Rightarrow> string \<Rightarrow> msg list \<Rightarrow> exn + (yaml \<times> msg list)" where
  "get_yaml_content project path filename console =
     (case repository_tree project path of
        Inl (GitlabHttpError e) \<Rightarrow> Inl (SystemExit 255)
      | Inl (GitlabGetError e) \<Rightarrow>
          Inr (YMap [],
               console
               @ [Msg Blue ''info: skip project '{}', because it has no files''
                    [AStr (project_name project)]]
               @ (if e \<noteq> not_found
                  then [Msg Red ''error: failed to retrieving repository_tree: {}''
                          [AExn (GitlabGetError e)]]
                  else []))
      | Inl other \<Rightarrow> Inl other
      | Inr items \<Rightarrow>
          if length items > 0 then
            (case find (\<lambda>f. fst f = filename) items of
               None \<Rightarrow> Inr (YMap [], console)
             | Some meta_main \<Rightarrow>
                 (case repository_blob project (snd meta_main) of
                    Inl (GitlabHttpError e) \<Rightarrow>
                      Inr (YMap [],
                           console @ [Msg Red ''error: failed to retrieving file_info: {}''
                                        [AExn (GitlabHttpError e)]])
                  | Inl other \<Rightarrow> Inl other
                  | Inr content \<Rightarrow> Inr (content, console)))
          else Inr (YMap [], console))"

section \<open>Attribute Extractor: \<^verbatim>\<open>set_role_attributes\<close>, \<^verbatim>\<open>set_play_attributes\<close>\<close>

text \<open>
  \<^verbatim>\<open>try: x = content["galaxy_info"][key]\<close> \<^verbatim>\<open>except KeyError: x = dflt\<close>.
  Only \<^verbatim>\<open>KeyError\<close> is caught.
\<close>

definition galaxy_info_field :: "yaml \<Rightarrow> string \<Rightarrow> yaml \<Rightarrow> exn + yaml" where
  "galaxy_info_field content key dflt =
     (case subscript content ''galaxy_info'' of
        Inl (KeyError k) \<Rightarrow> Inr dflt
      | Inl e \<Rightarrow> Inl e
      | Inr galaxy_info \<Rightarrow>
          (case subscript galaxy_info key of
             Inl (KeyError k) \<Rightarrow> Inr dflt
           | Inl e \<Rightarrow> Inl e
           | Inr v \<Rightarrow> Inr v))"

text \<open>
  \<^verbatim>\<open>re.match("^(.+)/[^/]+$", project.path_with_namespace).group(1)\<close>: on no match
  \<^verbatim>\<open>.group\<close> is applied to \<^verbatim>\<open>None\<close>, an \<^verbatim>\<open>AttributeError\<close>.
\<close>

definition project_group :: "project \<Rightarrow> exn + string" where
  "project_group project =
     (case match_group (path_with_namespace project) of
        None \<Rightarrow> Inl AttributeError
      | Some g \<Rightarrow> Inr g)"

definition set_role_attributes :: "project \<Rightarrow> yaml \<Rightarrow> exn + entity" where
  "set_role_attributes project content =
     (case galaxy_info_field content ''description'' (YStr []) of
        Inl e \<Rightarrow> Inl e
      | Inr d \<Rightarrow>
     (case galaxy_info_field content ''platforms'' (YList []) of
        Inl e \<Rightarrow> Inl e
      | Inr p \<Rightarrow>
     (case galaxy_info_field content ''galaxy_tags'' (YList []) of
        Inl e \<Rightarrow> Inl e
      | Inr t \<Rightarrow>
     (case project_group project of
        Inl e \<Rightarrow> Inl e
      | Inr g \<Rightarrow>
     (case tags_list project of
        Inl e \<Rightarrow> Inl e
      | Inr tags \<Rightarrow>
          Inr \<lparr> description = Some d, platforms = Some p, galaxy_tags = Some t,
                state = ''role'', name = YStr (project_name project),
                url = ssh_url_to_repo project, web_url = project_web_url project,
                group = g, git_tags = tags, used_by = [] \<rparr>)))))"

definition set_play_attributes :: "project \<Rightarrow> yaml \<Rightarrow> exn + entity" where
  "set_play_attributes project content =
     (case project_group project of
        Inl e \<Rightarrow> Inl e
      | Inr g \<Rightarrow>
     (case tags_list project of
        Inl e \<Rightarrow> Inl e
      | Inr tags \<Rightarrow>
          Inr \<lparr> description = None, platforms = None, galaxy_tags = None,
                state = ''play'', name = YStr (project_name project),
                url = ssh_url_to_repo project, web_url = project_web_url project,
                group = g, git_tags = tags, used_by = [] \<rparr>))"

section \<open>Dependency Linker: \<^verbatim>\<open>add_dependencies\<close>\<close>

text \<open>
  The edge table \<^verbatim>\<open>used_by_data\<close> maps a target to the identities that declare it.
  \<open>edge_add\<close> is the second \<^verbatim>\<open>try\<close> of the loop body: append \<open>prjid\<close> to the
  target's list unless it is there; the bare \<^verbatim>\<open>except\<close> makes a one-element list for
  a target that has no entry.
\<close>

type_synonym edges = "(yaml \<times> string list) list"

definition edge_add :: "edges \<Rightarrow> yaml \<Rightarrow> string \<Rightarrow> edges" where
  "edge_add used_by_data dep_path_with_namespace prjid =
     (case map_of used_by_data dep_path_with_namespace of
        Some ids \<Rightarrow>
          if prjid \<notin> set ids
          then AList.update dep_path_with_namespace (ids @ [prjid]) used_by_data
          else used_by_data
      | None \<Rightarrow> AList.update dep_path_with_namespace [prjid] used_by_data)"

text \<open>
  What the linker reads and writes: the edge table, the list \<^verbatim>\<open>external\<close> (both
  mutated in place by the source) and the console.
\<close>

type_synonym link_state = "edges \<times> yaml list \<times> msg list"

datatype 'a loop = Continue 'a | Break 'a

definition include_msg :: "project \<Rightarrow> msg" where
  "include_msg project =
     Msg Red (''error: includes are not supported. skipping '{}'' @ [CHR 0x27])
       [AStr (path_with_namespace project)]"

definition no_src_msg :: "project \<Rightarrow> yaml \<Rightarrow> msg" where
  "no_src_msg project dep_name =
     Msg Yellow
       ''warning: {}->{}: dependeny has no {} (probably galaxy source), adding as external.''
       [AStr (project_name project), AVal dep_name, AExn (KeyError (YStr ''src''))]"

text \<open>
  The first \<^verbatim>\<open>try\<close> of the loop body: the target of one dependency. With a
  \<^verbatim>\<open>src\<close> it is group 1 of the source URL pattern (\<^verbatim>\<open>re.match\<close> raises
  \<^verbatim>\<open>TypeError\<close> on a \<^verbatim>\<open>src\<close> that is no string, and \<^verbatim>\<open>.group\<close> on \<^verbatim>\<open>None\<close> is an
  \<^verbatim>\<open>AttributeError\<close>); the handler of \<^verbatim>\<open>KeyError\<close> reads \<^verbatim>\<open>dep["name"]\<close>, which
  raises again when that key is missing too.
\<close>

definition dep_target ::
  "string \<Rightarrow> project \<Rightarrow> yaml \<Rightarrow> yaml list \<Rightarrow> msg list \<Rightarrow> exn + (yaml \<times> yaml list \<times> msg list)" where
  "dep_target GITLAB_URL project dep external console =
     (case subscript dep ''src'' of
        Inl (KeyError k) \<Rightarrow>
          (case subscript dep ''name'' of
             Inl e \<Rightarrow> Inl e
           | Inr dep_name \<Rightarrow>
               Inr (dep_name, external @ [dep_name], console @ [no_src_msg project dep_name]))
      | Inl e \<Rightarrow> Inl e
      | Inr (YStr src) \<Rightarrow>
          (case match_src GITLAB_URL src of
             None \<Rightarrow> Inl AttributeError
           | Some g \<Rightarrow> Inr (YStr g, external, console))
      | Inr other \<Rightarrow> Inl TypeError)"

text \<open>The body of \<^verbatim>\<open>for dep in dep_list\<close>.\<close>

definition add_dependency ::
  "string \<Rightarrow> project \<Rightarrow> string \<Rightarrow> yaml \<Rightarrow> link_state \<Rightarrow> exn + link_state loop" where
  "add_dependency GITLAB_URL project prjid dep s =
     (case s of (used_by_data, external, console) \<Rightarrow>
        (case py_in ''include'' dep of
           Inl e \<Rightarrow> Inl e
         | Inr True \<Rightarrow> Inr (Break (used_by_data, external, console @ [include_msg project]))
         | Inr False \<Rightarrow>
             (case dep_target GITLAB_URL project dep external console of
                Inl e \<Rightarrow> Inl e
              | Inr (dep_path_with_namespace, external', console') \<Rightarrow>
                  if hashable dep_path_with_namespace
                  then Inr (Continue (edge_add used_by_data dep_path_with_namespace prjid,
                                      external', console'))
                  else Inl TypeError)))"

fun dep_loop ::
  "string \<Rightarrow> project \<Rightarrow> string \<Rightarrow> yaml list \<Rightarrow> link_state \<Rightarrow> exn + link_state" where
  "dep_loop GITLAB_URL project prjid [] s = Inr s"
| "dep_loop GITLAB_URL project prjid (dep # deps) s =
     (case add_dependency GITLAB_URL project prjid dep s of
        Inl e \<Rightarrow> Inl e
      | Inr (Break s') \<Rightarrow> Inr s'
      | Inr (Continue s') \<Rightarrow> dep_loop GITLAB_URL project prjid deps s')"

definition add_dependencies ::
  "string \<Rightarrow> project \<Rightarrow> string \<Rightarrow> yaml \<Rightarrow> link_state \<Rightarrow> exn + link_state" where
  "add_dependencies GITLAB_URL project prjid dep_list s =
     (case py_iter dep_list of
        Inl e \<Rightarrow> Inl e
      | Inr deps \<Rightarrow> dep_loop GITLAB_URL project prjid deps s)"

section \<open>Inventory Builder: \<^verbatim>\<open>generate_projects_data\<close>\<close>

text \<open>
  The local variables of \<^verbatim>\<open>generate_projects_data\<close> and the console. Two fields
  are not variables of the source but a record of what it did: \<open>fetched\<close> lists the
  calls of \<^verbatim>\<open>get_yaml_content\<close> that returned (repository id, directory, file
  name), and \<open>visited\<close> lists, for every pass through the body of the filter test,
  the repository id and the branch the pass ended in.
\<close>

datatype outcome = Linked | Skipped | NoMetadata

record build =
  projects_data :: "(string \<times> entity) list"
  used_by_data :: edges
  projects_mapping :: "(string \<times> string) list"
  projects_extern :: "yaml list"
  printed :: "msg list"
  fetched :: "(nat \<times> string \<times> string) list"
  visited :: "(nat \<times> outcome) list"

definition initial :: build where
  "initial = \<lparr> projects_data = [], used_by_data = [], projects_mapping = [],
               projects_extern = [], printed = [], fetched = [], visited = [] \<rparr>"

text \<open>\<^verbatim>\<open>prjid = p.name + "-" + str(p.id)\<close>\<close>

definition prjid_of :: "project \<Rightarrow> string" where
  "prjid_of p = project_name p @ ''-'' @ str_nat (project_id p)"

text \<open>
  \<^verbatim>\<open>used_by_data = add_dependencies(p, prjid, dep_list, used_by_data,
  projects_extern)\<close>
\<close>

definition run_linker :: "string \<Rightarrow> project \<Rightarrow> yaml \<Rightarrow> build \<Rightarrow> exn + build" where
  "run_linker GITLAB_URL p dep_list b =
     (case add_dependencies GITLAB_URL p (prjid_of p) dep_list
             (used_by_data b, projects_extern b, printed b) of
        Inl e \<Rightarrow> Inl e
      | Inr (u, x, c) \<Rightarrow>
          Inr (b\<lparr> used_by_data := u, projects_extern := x, printed := c,
                  visited := visited b @ [(project_id p, Linked)] \<rparr>))"

text \<open>
  \<^verbatim>\<open>projects_data[prjid] = attrs\<close> and
  \<^verbatim>\<open>projects_mapping[p.path_with_namespace] = prjid\<close>
\<close>

definition record_entity :: "project \<Rightarrow> entity \<Rightarrow> build \<Rightarrow> build" where
  "record_entity p attrs b =
     b\<lparr> projects_data := AList.update (prjid_of p) attrs (projects_data b),
        projects_mapping := AList.update (path_with_namespace p) (prjid_of p) (projects_mapping b) \<rparr>"

definition symlink_msg :: "project \<Rightarrow> string \<Rightarrow> yaml \<Rightarrow> msg" where
  "symlink_msg p template content = Msg Yellow template [AStr (path_with_namespace p), AVal content]"

text \<open>The branch \<^verbatim>\<open>if content:\<close> of the role metadata.\<close>

definition role_found :: "string \<Rightarrow> project \<Rightarrow> yaml \<Rightarrow> build \<Rightarrow> exn + build" where
  "role_found GITLAB_URL p content b =
     (if isinstance_str content
      then Inr (b\<lparr> printed := printed b
                       @ [symlink_msg p ''warning: {} has a symlink in meta/main.yml (->{})'' content],
                    visited := visited b @ [(project_id p, Skipped)] \<rparr>)
      else
        (case set_role_attributes p content of
           Inl e \<Rightarrow> Inl e
         | Inr attrs \<Rightarrow>
             (case py_in ''dependencies'' content of
                Inl e \<Rightarrow> Inl e
              | Inr False \<Rightarrow>
                  Inr ((record_entity p attrs b)
                         \<lparr> visited := visited b @ [(project_id p, Linked)] \<rparr>)
              | Inr True \<Rightarrow>
                  (case subscript content ''dependencies'' of
                     Inl e \<Rightarrow> Inl e
                   | Inr dependencies \<Rightarrow>
                       (case py_len dependencies of
                          Inl e \<Rightarrow> Inl e
                        | Inr n \<Rightarrow>
                            if n > 0
                            then run_linker GITLAB_URL p dependencies (record_entity p attrs b)
                            else Inr ((record_entity p attrs b)
                                        \<lparr> visited := visited b @ [(project_id p, Linked)] \<rparr>))))))"

text \<open>The \<^verbatim>\<open>else\<close> branch: no role found, search for playbooks.\<close>

definition play_attempt :: "string \<Rightarrow> project \<Rightarrow> build \<Rightarrow> exn + build" where
  "play_attempt GITLAB_URL p b =
     (case get_yaml_content p ''roles'' ''requirements.yml'' (printed b) of
        Inl e \<Rightarrow> Inl e
      | Inr (content, c) \<Rightarrow>
          (let b1 = b\<lparr> printed := c,
                       fetched := fetched b @ [(project_id p, ''roles'', ''requirements.yml'')] \<rparr>
           in if truthy content then
                if isinstance_str content
                then Inr (b1\<lparr> printed := c
                                 @ [symlink_msg p
                                      ''warning: {} has a symlink in roles/requirements.yml (->{})''
                                      content],
                              visited := visited b @ [(project_id p, Skipped)] \<rparr>)
                else
                  (case set_play_attributes p content of
                     Inl e \<Rightarrow> Inl e
                   | Inr attrs \<Rightarrow> run_linker GITLAB_URL p content (record_entity p attrs b1))
              else Inr (b1\<lparr> visited := visited b @ [(project_id p, NoMetadata)] \<rparr>)))"

text \<open>The body of \<^verbatim>\<open>if re.match(path, p.path_with_namespace):\<close>\<close>

definition process_project :: "string \<Rightarrow> project \<Rightarrow> build \<Rightarrow> exn + build" where
  "process_project GITLAB_URL p b =
     (case get_yaml_content p ''meta'' ''main.yml'' (printed b) of
        Inl e \<Rightarrow> Inl e
      | Inr (content, c) \<Rightarrow>
          (let b1 = b\<lparr> printed := c,
                       fetched := fetched b @ [(project_id p, ''meta'', ''main.yml'')] \<rparr>
           in if truthy content then role_found GITLAB_URL p content b1
              else play_attempt GITLAB_URL p b1))"

text \<open>
  \<^verbatim>\<open>for path in PATH_FILTERS:\<close> The loop has no \<^verbatim>\<open>break\<close>, and the
  \<^verbatim>\<open>continue\<close> of the symlink branches goes on with the next filter.
\<close>

fun filter_loop :: "string \<Rightarrow> project \<Rightarrow> string list \<Rightarrow> build \<Rightarrow> exn + build" where
  "filter_loop GITLAB_URL p [] b = Inr b"
| "filter_loop GITLAB_URL p (path # paths) b =
     (if re_match path (path_with_namespace p)
      then (case process_project GITLAB_URL p b of
              Inl e \<Rightarrow> Inl e
            | Inr b' \<Rightarrow> filter_loop GITLAB_URL p paths b')
      else filter_loop GITLAB_URL p paths b)"

text \<open>\<^verbatim>\<open>for p in projects:\<close>\<close>

definition archived_msg :: "project \<Rightarrow> msg" where
  "archived_msg p =
     Msg Blue ''info: skip project '{}', because it is archived'' [AStr (project_name p)]"

fun project_loop :: "string \<Rightarrow> string list \<Rightarrow> project list \<Rightarrow> build \<Rightarrow> exn + build" where
  "project_loop GITLAB_URL PATH_FILTERS [] b = Inr b"
| "project_loop GITLAB_URL PATH_FILTERS (p # ps) b =
     (if archived p
      then project_loop GITLAB_URL PATH_FILTERS ps (b\<lparr> printed := printed b @ [archived_msg p] \<rparr>)
      else (case filter_loop GITLAB_URL p PATH_FILTERS b of
              Inl e \<Rightarrow> Inl e
            | Inr b' \<Rightarrow> project_loop GITLAB_URL PATH_FILTERS ps b'))"

text \<open>The main traversal, from the empty tables.\<close>

definition traverse :: "string \<Rightarrow> string list \<Rightarrow> project list \<Rightarrow> exn + build" where
  "traverse GITLAB_URL PATH_FILTERS projects = project_loop GITLAB_URL PATH_FILTERS projects initial"

subsection \<open>The reconciliation pass\<close>

text \<open>\<^verbatim>\<open>projects_mapping[dep_path_with_namespace]\<close>: the keys of the mapping are strings.\<close>

fun lookup_mapping :: "(string \<times> string) list \<Rightarrow> yaml \<Rightarrow> string option" where
  "lookup_mapping m (YStr s) = map_of m s"
| "lookup_mapping m v = None"

definition unknown_id :: "nat \<Rightarrow> string" where
  "unknown_id cnt = ''zzz-unknown-'' @ str_nat cnt"

definition placeholder :: "string \<Rightarrow> yaml \<Rightarrow> entity" where
  "placeholder st dep_path_with_namespace =
     \<lparr> description = Some (YStr ''unknown''), platforms = Some (YList []),
       galaxy_tags = Some (YList []), state = st, name = dep_path_with_namespace,
       url = [], web_url = [], group = ''unknown'', git_tags = [], used_by = [] \<rparr>"

definition unknown_msg :: "yaml \<Rightarrow> msg" where
  "unknown_msg dep_path_with_namespace =
     Msg Red ''error: path_with_namespace '{}' is unknown'' [AExn (KeyError dep_path_with_namespace)]"

text \<open>
  One round of \<^verbatim>\<open>for dep_path_with_namespace, dep_prjid_list in
  used_by_data.items():\<close> with the counter \<open>cnt\<close>. The last statement,
  \<^verbatim>\<open>projects_data[used_by_prjid]["used_by"] = dep_prjid_list\<close>, raises
  \<^verbatim>\<open>KeyError\<close> when the mapping names an identity that \<^verbatim>\<open>projects_data\<close> lacks.
\<close>

definition reconcile_entry :: "nat \<Rightarrow> yaml \<times> string list \<Rightarrow> build \<Rightarrow> exn + build" where
  "reconcile_entry cnt item b =
     (case item of (dep_path_with_namespace, dep_prjid_list) \<Rightarrow>
        (case lookup_mapping (projects_mapping b) dep_path_with_namespace of
           Some used_by_prjid \<Rightarrow>
             (case map_of (projects_data b) used_by_prjid of
                None \<Rightarrow> Inl (KeyError (YStr used_by_prjid))
              | Some e \<Rightarrow>
                  Inr (b\<lparr> projects_data :=
                            AList.update used_by_prjid (e\<lparr> used_by := dep_prjid_list \<rparr>)
                              (projects_data b) \<rparr>))
         | None \<Rightarrow>
             (let used_by_prjid = unknown_id cnt;
                  st = (if dep_path_with_namespace \<in> set (projects_extern b)
                        then ''role_extern'' else ''role_unknown'')
              in Inr (b\<lparr> projects_data :=
                            AList.update used_by_prjid
                              ((placeholder st dep_path_with_namespace)\<lparr> used_by := dep_prjid_list \<rparr>)
                              (AList.update used_by_prjid (placeholder st dep_path_with_namespace)
                                 (projects_data b)),
                          printed := printed b @ [unknown_msg dep_path_with_namespace] \<rparr>))))"

fun reconcile :: "nat \<Rightarrow> edges \<Rightarrow> build \<Rightarrow> exn + build" where
  "reconcile cnt [] b = Inr b"
| "reconcile cnt (item # items) b =
     (case reconcile_entry cnt item b of
        Inl e \<Rightarrow> Inl e
      | Inr b' \<Rightarrow> reconcile (cnt + 1) items b')"

text \<open>The whole build: the traversal, then the reconciliation from \<^verbatim>\<open>cnt = 0\<close>.\<close>

definition build_all :: "string \<Rightarrow> string list \<Rightarrow> project list \<Rightarrow> exn + build" where
  "build_all GITLAB_URL PATH_FILTERS projects =
     (case traverse GITLAB_URL PATH_FILTERS projects of
        Inl e \<Rightarrow> Inl e
      | Inr b \<Rightarrow> reconcile 0 (used_by_data b) b)"

definition generate_projects_data ::
  "string \<Rightarrow> string list \<Rightarrow> project list \<Rightarrow> exn + (string \<times> entity) list" where
  "generate_projects_data GITLAB_URL PATH_FILTERS projects =
     (case build_all GITLAB_URL PATH_FILTERS projects of
        Inl e \<Rightarrow> Inl e
      | Inr b \<Rightarrow> Inr (projects_data b))"

section \<open>Notions the properties are stated with\<close>

text \<open>No identity stands twice in the list of one target of the edge table.\<close>

definition no_duplicates :: "edges \<Rightarrow> bool" where
  "no_duplicates table = list_all (\<lambda>item. distinct (snd item)) table"

text \<open>The identities the edge table lists for a target; none for a target it lacks.\<close>

definition declaring :: "edges \<Rightarrow> yaml \<Rightarrow> string list" where
  "declaring table target = (case map_of table target of None \<Rightarrow> [] | Some ids \<Rightarrow> ids)"

text \<open>
  From one edge table to a later one, every target's list is kept or gets the one
  identity \<open>prjid\<close>, which it did not hold, appended.
\<close>

definition grows_by :: "string \<Rightarrow> edges \<Rightarrow> edges \<Rightarrow> bool" where
  "grows_by prjid u u' =
     (\<forall>t. declaring u' t = declaring u t \<or>
          (prjid \<notin> set (declaring u t) \<and> declaring u' t = declaring u t @ [prjid]))"

subsection \<open>Example inputs\<close>

definition example_url :: string where
  "example_url = ''https://gitlab.example.com''"

definition no_blob :: "exn + yaml" where
  "no_blob = Inl (GitlabGetError ''404: 404 Blob Not Found'')"

text \<open>
  A role repository \<^verbatim>\<open>infra/webserver\<close> (id 12) whose \<^verbatim>\<open>meta/main.yml\<close> holds
  \<^verbatim>\<open>galaxy_info: {description: Installs nginx}\<close>.
\<close>

definition webserver :: project where
  "webserver =
     \<lparr> project_id = 12, project_name = ''webserver'', archived = False,
       path_with_namespace = ''infra/webserver'',
       ssh_url_to_repo = ''git@gitlab.example.com:infra/webserver.git'',
       project_web_url = ''https://gitlab.example.com/infra/webserver'',
       tags_list = Inr [],
       repository_tree =
         (\<lambda>path. if path = ''meta'' then Inr [(''main.yml'', ''b1'')]
                  else Inl (GitlabGetError not_found)),
       repository_blob =
         (\<lambda>i. if i = ''b1''
               then Inr (YMap [(''galaxy_info'', YMap [(''description'', YStr ''Installs nginx'')])])
               else no_blob) \<rparr>"

text \<open>
  A play repository \<^verbatim>\<open>infra/site\<close> (id 5) whose \<^verbatim>\<open>roles/requirements.yml\<close> is
  \<^verbatim>\<open>[{src: "git@gitlab.example.com:infra/webserver.git"}]\<close>.
\<close>

definition webserver_dep :: yaml where
  "webserver_dep = YMap [(''src'', YStr ''git@gitlab.example.com:infra/webserver.git'')]"

definition site :: project where
  "site =
     \<lparr> project_id = 5, project_name = ''site'', archived = False,
       path_with_namespace = ''infra/site'',
       ssh_url_to_repo = ''git@gitlab.example.com:infra/site.git'',
       project_web_url = ''https://gitlab.example.com/infra/site'',
       tags_list = Inr [],
       repository_tree =
         (\<lambda>path. if path = ''roles'' then Inr [(''requirements.yml'', ''b2'')]
                  else Inl (GitlabGetError not_found)),
       repository_blob = (\<lambda>i. if i = ''b2'' then Inr (YList [webserver_dep]) else no_blob) \<rparr>"

definition include_dep :: yaml where
  "include_dep = YMap [(''include'', YStr ''./other.yml'')]"

definition github_dep :: yaml where
  "github_dep = YMap [(''src'', YStr ''https://github.com/geerlingguy/ansible-role-nginx.git'')]"

text \<open>
  A play repository \<^verbatim>\<open>infra/mirror\<close> (id 7) whose \<^verbatim>\<open>roles/requirements.yml\<close> names a
  role by an \<^verbatim>\<open>https\<close> URL of another host.
\<close>

definition mirror :: project where
  "mirror =
     \<lparr> project_id = 7, project_name = ''mirror'', archived = False,
       path_with_namespace = ''infra/mirror'',
       ssh_url_to_repo = ''git@gitlab.example.com:infra/mirror.git'',
       project_web_url = ''https://gitlab.example.com/infra/mirror'',
       tags_list = Inr [],
       repository_tree =
         (\<lambda>path. if path = ''roles'' then Inr [(''requirements.yml'', ''b3'')]
                  else Inl (GitlabGetError not_found)),
       repository_blob = (\<lambda>i. if i = ''b3'' then Inr (YList [github_dep]) else no_blob) \<rparr>"

text \<open>Repositories whose API calls fail, and one whose \<^verbatim>\<open>meta\<close> directory is empty.\<close>

definition server_error :: string where
  "server_error = ''500: 500 Internal Server Error''"

definition flaky :: project where
  "flaky = webserver \<lparr> repository_tree := (\<lambda>path. Inl (GitlabGetError server_error)) \<rparr>"

definition blobless :: project where
  "blobless = webserver \<lparr> repository_blob := (\<lambda>i. Inl (GitlabHttpError server_error)) \<rparr>"

definition denied :: project where
  "denied = webserver \<lparr> repository_tree := (\<lambda>path. Inl (GitlabHttpError server_error)) \<rparr>"

definition empty_dir :: project where
  "empty_dir = webserver \<lparr> repository_tree := (\<lambda>path. Inr []) \<rparr>"




subsection \<open>What the fetcher prints\<close>

definition tree_failed_msgs :: "project \<Rightarrow> string \<Rightarrow> msg list" where
  "tree_failed_msgs p e =
     Msg Blue ''info: skip project '{}', because it has no files'' [AStr (project_name p)]
     # (if e \<noteq> not_found
        then [Msg Red ''error: failed to retrieving repository_tree: {}'' [AExn (GitlabGetError e)]]
        else [])"

definition blob_failed_msg :: "string \<Rightarrow> msg" where
  "blob_failed_msg e =
     Msg Red ''error: failed to retrieving file_info: {}'' [AExn (GitlabHttpError e)]"

subsection \<open>The \<^verbatim>\<open>galaxy_info\<close> of a metadata document\<close>




subsection \<open>The reconciliation pass, pair by pair\<close>

text \<open>
  \<open>write_key pm cnt t\<close> is the identity under which the round with counter \<open>cnt\<close>
  stores the pair of target \<open>t\<close>: the identity the mapping \<open>pm\<close> gives for the
  target, or the placeholder identity of the counter. \<open>kind_of\<close> is the \<^verbatim>\<open>state\<close>
  of a placeholder, and \<open>entry_value b t ids\<close> the entity that the round stores (none
  when the mapping names an identity that \<^verbatim>\<open>projects_data\<close> lacks).
\<close>

definition write_key :: "(string \<times> string) list \<Rightarrow> nat \<Rightarrow> yaml \<Rightarrow> string" where
  "write_key pm cnt t = (case lookup_mapping pm t of Some pid \<Rightarrow> pid | None \<Rightarrow> unknown_id cnt)"

definition kind_of :: "yaml list \<Rightarrow> yaml \<Rightarrow> string" where
  "kind_of ext t = (if t \<in> set ext then ''role_extern'' else ''role_unknown'')"

definition entry_value :: "build \<Rightarrow> yaml \<Rightarrow> string list \<Rightarrow> entity option" where
  "entry_value b t ids =
     (case lookup_mapping (projects_mapping b) t of
        Some pid \<Rightarrow> map_option (\<lambda>e. e\<lparr> used_by := ids \<rparr>) (map_of (projects_data b) pid)
      | None \<Rightarrow> Some ((placeholder (kind_of (projects_extern b) t) t)\<lparr> used_by := ids \<rparr>))"

text \<open>
  What holds of the tables during the traversal of the repositories \<open>ps\<close>: the edge
  table has distinct targets and no duplicate identity; the mapping takes the path of
  a repository of \<open>ps\<close>, which the group pattern matches, to the identity of that
  repository, an identity of an entity; and every entity is that of a repository.
\<close>

definition traversed :: "project set \<Rightarrow> build \<Rightarrow> bool" where
  "traversed ps b =
     (distinct (map fst (used_by_data b)) \<and> no_duplicates (used_by_data b) \<and>
      (\<forall>path pid. map_of (projects_mapping b) path = Some pid \<longrightarrow>
         pid \<in> fst ` set (projects_data b) \<and>
         (\<exists>p\<in>ps. path = path_with_namespace p \<and> pid = prjid_of p \<and> match_group path \<noteq> None)) \<and>
      fst ` set (projects_data b) \<subseteq> prjid_of ` ps)"

definition dash :: char where
  "dash = CHR ''-''"

subsection \<open>Further example inputs\<close>

definition ghost_dep :: yaml where
  "ghost_dep = YMap [(''src'', YStr ''git@gitlab.example.com:infra/ghost.git'')]"

definition phantom_dep :: yaml where
  "phantom_dep = YMap [(''src'', YStr ''git@gitlab.example.com:infra/phantom.git'')]"

definition galaxy_dep :: yaml where
  "galaxy_dep = YMap [(''name'', YStr ''community.general'')]"

definition role_dep :: yaml where
  "role_dep = YMap [(''role'', YStr ''common'')]"

text \<open>
  A play repository \<^verbatim>\<open>infra/portal\<close> (id 8) that requires the role of the examples,
  a role no repository holds, and a role named without a source.
\<close>

definition portal :: project where
  "portal =
     \<lparr> project_id = 8, project_name = ''portal'', archived = False,
       path_with_namespace = ''infra/portal'',
       ssh_url_to_repo = ''git@gitlab.example.com:infra/portal.git'',
       project_web_url = ''https://gitlab.example.com/infra/portal'',
       tags_list = Inr [],
       repository_tree =
         (\<lambda>path. if path = ''roles'' then Inr [(''requirements.yml'', ''b4'')]
                  else Inl (GitlabGetError not_found)),
       repository_blob =
         (\<lambda>i. if i = ''b4'' then Inr (YList [webserver_dep, ghost_dep, galaxy_dep]) else no_blob) \<rparr>"

text \<open>
  A role repository named \<^verbatim>\<open>zzz-unknown\<close> with id 1, and a play repository
  \<^verbatim>\<open>infra/haunted\<close> (id 9) that requires two roles no repository holds.
\<close>

definition zzz :: project where
  "zzz = webserver \<lparr> project_id := 1, project_name := ''zzz-unknown'',
                     path_with_namespace := ''infra/zzz-unknown'',
                     ssh_url_to_repo := ''git@gitlab.example.com:infra/zzz-unknown.git'',
                     project_web_url := ''https://gitlab.example.com/infra/zzz-unknown'' \<rparr>"

definition haunted :: project where
  "haunted =
     \<lparr> project_id = 9, project_name = ''haunted'', archived = False,
       path_with_namespace = ''infra/haunted'',
       ssh_url_to_repo = ''git@gitlab.example.com:infra/haunted.git'',
       project_web_url = ''https://gitlab.example.com/infra/haunted'',
       tags_list = Inr [],
       repository_tree =
         (\<lambda>path. if path = ''roles'' then Inr [(''requirements.yml'', ''b5'')]
                  else Inl (GitlabGetError not_found)),
       repository_blob =
         (\<lambda>i. if i = ''b5'' then Inr (YList [ghost_dep, phantom_dep]) else no_blob) \<rparr>"

subsection \<open>What the build observes of a repository\<close>

text \<open>
  Two repositories are observed alike when they agree on what the build reads: the
  attributes, the tag names, the listings of the directories \<^verbatim>\<open>meta\<close> and \<^verbatim>\<open>roles\<close>,
  and the blobs of the files listed there.
\<close>

definition observed_alike :: "project \<Rightarrow> project \<Rightarrow> bool" where
  "observed_alike p q =
     (project_id p = project_id q \<and> project_name p = project_name q \<and> archived p = archived q \<and>
      path_with_namespace p = path_with_namespace q \<and> ssh_url_to_repo p = ssh_url_to_repo q \<and>
      project_web_url p = project_web_url q \<and> tags_list p = tags_list q \<and>
      list_all
        (\<lambda>dir. repository_tree p dir = repository_tree q dir \<and>
           (case repository_tree p dir of
              Inl e \<Rightarrow> True
            | Inr items \<Rightarrow>
                list_all (\<lambda>item. repository_blob p (snd item) = repository_blob q (snd item)) items))
        [''meta'', ''roles''])"

text \<open>The role of the examples with a \<^verbatim>\<open>docs\<close> directory, which the build never lists.\<close>

definition webserver_with_docs :: project where
  "webserver_with_docs =
     webserver \<lparr> repository_tree :=
                   (\<lambda>path. if path = ''docs'' then Inr [(''index.md'', ''b9'')]
                            else repository_tree webserver path),
                 repository_blob :=
                   (\<lambda>i. if i = ''b9'' then Inr (YStr ''# Webserver'') else repository_blob webserver i) \<rparr>"

section \<open>Properties of the Dependency Linker\<close>

lemma map_of_update_list:
  "map_of (AList.update k v al) k' = (if k' = k then Some v else map_of al k')"
  by (simp add: update_conv')

lemma no_duplicates_update:
  "no_duplicates u \<Longrightarrow> distinct ids \<Longrightarrow> no_duplicates (AList.update k ids u)"
  by (induction u) (auto simp: no_duplicates_def)

lemma no_duplicates_map_of:
  "no_duplicates u \<Longrightarrow> map_of u k = Some ids \<Longrightarrow> distinct ids"
  by (induction u) (auto simp: no_duplicates_def split: if_splits)

lemma edge_add_no_duplicates: "no_duplicates u \<Longrightarrow> no_duplicates (edge_add u t prjid)"
  by (auto simp: edge_add_def split: option.splits
           intro!: no_duplicates_update dest: no_duplicates_map_of)

lemma edge_add_declaring:
  "declaring (edge_add u t prjid) t' =
     (if t' = t \<and> prjid \<notin> set (declaring u t) then declaring u t @ [prjid]
      else declaring u t')"
  by (auto simp: edge_add_def declaring_def map_of_update_list split: option.splits)

lemma grows_by_refl: "grows_by prjid u u"
  by (simp add: grows_by_def)

lemma grows_by_edge_add: "grows_by prjid u (edge_add u t prjid)"
  by (simp add: grows_by_def edge_add_declaring)

lemma grows_by_trans:
  assumes "grows_by prjid u u1" and "grows_by prjid u1 u2"
  shows "grows_by prjid u u2"
  unfolding grows_by_def
proof
  fix t
  from assms(2) have step: "declaring u2 t = declaring u1 t \<or>
          (prjid \<notin> set (declaring u1 t) \<and> declaring u2 t = declaring u1 t @ [prjid])"
    unfolding grows_by_def by blast
  from assms(1) consider "declaring u1 t = declaring u t"
    | "prjid \<notin> set (declaring u t)" "declaring u1 t = declaring u t @ [prjid]"
    unfolding grows_by_def by blast
  then show "declaring u2 t = declaring u t \<or>
          (prjid \<notin> set (declaring u t) \<and> declaring u2 t = declaring u t @ [prjid])"
  proof cases
    case 1
    with step show ?thesis by auto
  next
    case 2
    then have "prjid \<in> set (declaring u1 t)" by simp
    with step have "declaring u2 t = declaring u1 t" by auto
    with 2 show ?thesis by simp
  qed
qed

text \<open>One round of the loop leaves the edge table alone or adds one edge to it.\<close>

lemma add_dependency_edges:
  assumes "add_dependency GITLAB_URL p prjid dep (u, x, c) = Inr r"
  shows "(\<exists>x' c'. r = Break (u, x', c')) \<or>
         (\<exists>t x' c'. r = Continue (edge_add u t prjid, x', c'))"
  using assms
  by (auto simp: add_dependency_def split: sum.splits bool.splits if_splits prod.splits)

lemma dep_loop_edges:
  assumes "dep_loop GITLAB_URL p prjid deps (u, x, c) = Inr (u', x', c')"
  shows "(no_duplicates u \<longrightarrow> no_duplicates u') \<and> grows_by prjid u u'"
  using assms
proof (induction deps arbitrary: u x c)
  case Nil
  then show ?case by (simp add: grows_by_refl)
next
  case (Cons dep deps)
  from Cons.prems obtain r where r: "add_dependency GITLAB_URL p prjid dep (u, x, c) = Inr r"
    by (cases "add_dependency GITLAB_URL p prjid dep (u, x, c)") auto
  from add_dependency_edges [OF r] show ?case
  proof (elim disjE exE)
    fix x1 c1
    assume "r = Break (u, x1, c1)"
    with r Cons.prems show ?thesis by (simp add: grows_by_refl)
  next
    fix t x1 c1
    assume rc: "r = Continue (edge_add u t prjid, x1, c1)"
    with r Cons.prems
    have "dep_loop GITLAB_URL p prjid deps (edge_add u t prjid, x1, c1) = Inr (u', x', c')"
      by simp
    from Cons.IH [OF this]
    have "no_duplicates (edge_add u t prjid) \<longrightarrow> no_duplicates u'"
      and "grows_by prjid (edge_add u t prjid) u'" by simp_all
    then show ?thesis
      using edge_add_no_duplicates grows_by_trans [OF grows_by_edge_add] by blast
  qed
qed

lemma match_src_webserver:
  "match_src example_url ''git@gitlab.example.com:infra/webserver.git'' = Some ''infra/webserver''"
  by code_simp

text \<open>
  C5. Whenever \<^verbatim>\<open>add_dependencies\<close> returns, whatever the dependency list and the
  edge table it started from: every target's list of declaring identities is the list
  it was, or that list with the one identity \<open>prjid\<close> appended, and this only when
  \<open>prjid\<close> was not in it. So an identity is never appended twice for one target, even
  when the repository declares the same target repeatedly, and an edge table free of
  duplicates (as the empty table the build starts from is) stays free of duplicates.
\<close>

theorem add_dependencies_no_duplicate_identity:
  assumes "add_dependencies GITLAB_URL p prjid dep_list (u, x, c) = Inr (u', x', c')"
  shows "(no_duplicates u \<longrightarrow> no_duplicates u') \<and>
         (\<forall>t. declaring u' t = declaring u t \<or>
              (prjid \<notin> set (declaring u t) \<and> declaring u' t = declaring u t @ [prjid]))"
proof -
  from assms obtain deps where "py_iter dep_list = Inr deps"
    and "dep_loop GITLAB_URL p prjid deps (u, x, c) = Inr (u', x', c')"
    by (auto simp: add_dependencies_def split: sum.splits)
  from dep_loop_edges [OF this(2)] show ?thesis by (simp add: grows_by_def)
qed

text \<open>The same dependency declared twice: one edge, the identity once.\<close>

theorem add_dependencies_no_duplicate_identity_witness:
  "add_dependencies example_url site ''site-5'' (YList [webserver_dep, webserver_dep]) ([], [], [])
     = Inr ([(YStr ''infra/webserver'', [''site-5''])], [], [])
   \<and> no_duplicates []
   \<and> no_duplicates [(YStr ''infra/webserver'', [''site-5''])]
   \<and> declaring [(YStr ''infra/webserver'', [''site-5''])] (YStr ''infra/webserver'')
       = declaring [] (YStr ''infra/webserver'') @ [''site-5'']"
proof -
  have run: "add_dependencies example_url site ''site-5'' (YList [webserver_dep, webserver_dep])
               ([], [], [])
             = Inr ([(YStr ''infra/webserver'', [''site-5''])], [], [])"
    by (simp add: add_dependencies_def add_dependency_def dep_target_def edge_add_def
                  webserver_dep_def match_src_webserver)
  have start: "no_duplicates []"
    by (simp add: no_duplicates_def)
  from add_dependencies_no_duplicate_identity [OF run] start
  have "no_duplicates [(YStr ''infra/webserver'', [''site-5''])]"
    by blast
  with run start show ?thesis
    by (simp add: declaring_def)
qed

text \<open>An entry without \<^verbatim>\<open>include\<close> does not end the loop.\<close>

lemma add_dependency_no_break:
  assumes "py_in ''include'' dep \<noteq> Inr True"
  shows "add_dependency GITLAB_URL p prjid dep s \<noteq> Inr (Break s')"
  using assms
  by (auto simp: add_dependency_def split: sum.splits bool.splits if_splits prod.splits)

lemma dep_loop_append:
  assumes "list_all (\<lambda>e. py_in ''include'' e \<noteq> Inr True) pre"
  shows "dep_loop GITLAB_URL p prjid (pre @ rest) s =
           (case dep_loop GITLAB_URL p prjid pre s of
              Inl e \<Rightarrow> Inl e
            | Inr s' \<Rightarrow> dep_loop GITLAB_URL p prjid rest s')"
  using assms
proof (induction pre arbitrary: s)
  case Nil
  then show ?case by simp
next
  case (Cons a pre)
  then have a: "py_in ''include'' a \<noteq> Inr True"
    and pre: "list_all (\<lambda>e. py_in ''include'' e \<noteq> Inr True) pre" by simp_all
  show ?case
  proof (cases "add_dependency GITLAB_URL p prjid a s")
    case (Inl e)
    then show ?thesis by simp
  next
    case (Inr r)
    show ?thesis
    proof (cases r)
      case (Continue s')
      with Inr Cons.IH [OF pre] show ?thesis by simp
    next
      case (Break s')
      with Inr add_dependency_no_break [OF a] show ?thesis by blast
    qed
  qed
qed

lemma add_dependency_include:
  assumes "py_in ''include'' d = Inr True"
  shows "add_dependency GITLAB_URL p prjid d (u, x, c) = Inr (Break (u, x, c @ [include_msg p]))"
  using assms by (simp add: add_dependency_def)

lemma add_dependencies_webserver_dep:
  "add_dependencies example_url site ''site-5'' (YList [webserver_dep]) ([], [], [])
     = Inr ([(YStr ''infra/webserver'', [''site-5''])], [], [])"
  by (simp add: add_dependencies_def add_dependency_def dep_target_def edge_add_def
                webserver_dep_def match_src_webserver)

text \<open>
  C1. Let \<open>d\<close> be the first entry of a dependency list for which \<^verbatim>\<open>"include" in
  dep\<close> holds, \<open>pre\<close> the entries before it and \<open>post\<close> those after it. Then
  \<^verbatim>\<open>add_dependencies\<close> on the whole list does what it does on \<open>pre\<close> alone, and
  prints the error about includes: the edge table and the external list are those
  that the entries before the include left, and neither the include nor an entry
  after it adds an edge. (If an entry of \<open>pre\<close> raises, both raise alike.)
\<close>

theorem include_abandons_dependency_list:
  assumes "py_in ''include'' d = Inr True"
      and "list_all (\<lambda>e. py_in ''include'' e \<noteq> Inr True) pre"
  shows "add_dependencies GITLAB_URL p prjid (YList (pre @ d # post)) s =
           (case add_dependencies GITLAB_URL p prjid (YList pre) s of
              Inl e \<Rightarrow> Inl e
            | Inr (u, x, c) \<Rightarrow> Inr (u, x, c @ [include_msg p]))"
  using assms
  by (auto simp: add_dependencies_def dep_loop_append add_dependency_include split: sum.splits)

text \<open>
  An include between two dependencies keeps the edge of the first and records none for
  the second; an include as the first entry records no edge at all.
\<close>

theorem include_abandons_dependency_list_witness:
  "py_in ''include'' include_dep = Inr True
   \<and> list_all (\<lambda>e. py_in ''include'' e \<noteq> Inr True) [webserver_dep]
   \<and> add_dependencies example_url site ''site-5''
        (YList ([webserver_dep] @ include_dep # [github_dep])) ([], [], [])
       = Inr ([(YStr ''infra/webserver'', [''site-5''])], [], [include_msg site])
   \<and> add_dependencies example_url site ''site-5''
        (YList ([] @ include_dep # [webserver_dep])) ([], [], [])
       = Inr ([], [], [include_msg site])"
proof -
  have h1: "py_in ''include'' include_dep = Inr True"
    by (simp add: include_dep_def)
  have h2: "list_all (\<lambda>e. py_in ''include'' e \<noteq> Inr True) [webserver_dep]"
    by (simp add: webserver_dep_def)
  have h3: "list_all (\<lambda>e. py_in ''include'' e \<noteq> Inr True) []"
    by simp
  from include_abandons_dependency_list
         [OF h1 h2, of example_url site "''site-5''" "[github_dep]" "([], [], [])"]
  have between: "add_dependencies example_url site ''site-5''
        (YList ([webserver_dep] @ include_dep # [github_dep])) ([], [], [])
       = Inr ([(YStr ''infra/webserver'', [''site-5''])], [], [include_msg site])"
    by (simp add: add_dependencies_webserver_dep)
  from include_abandons_dependency_list
         [OF h1 h3, of example_url site "''site-5''" "[webserver_dep]" "([], [], [])"]
  have first: "add_dependencies example_url site ''site-5''
        (YList ([] @ include_dep # [webserver_dep])) ([], [], [])
       = Inr ([], [], [include_msg site])"
    by (simp add: add_dependencies_def)
  from h1 h2 between first show ?thesis by blast
qed

lemma add_dependency_unmatched:
  assumes "py_in ''include'' dep = Inr False"
      and "subscript dep ''src'' = Inr (YStr src)"
      and "match_src GITLAB_URL src = None"
  shows "add_dependency GITLAB_URL p prjid dep s = Inl AttributeError"
  using assms by (cases s) (simp add: add_dependency_def dep_target_def)

lemma match_src_github:
  "match_src example_url ''https://github.com/geerlingguy/ansible-role-nginx.git'' = None"
  by code_simp

text \<open>
  C10. A dependency entry that is no include and whose \<^verbatim>\<open>src\<close> is a string that
  the source URL pattern does not match makes \<^verbatim>\<open>add_dependencies\<close> raise
  \<^verbatim>\<open>AttributeError\<close> (\<^verbatim>\<open>.group\<close> of \<^verbatim>\<open>None\<close>), wherever the entry stands in the
  list, once the entries before it are passed (\<open>pre\<close> holds no include and does not
  raise). No handler of the program catches it. The host is a plain pattern, for
  which \<open>match_src\<close> is the match of the program.
\<close>

theorem unmatched_src_raises:
  assumes "plain_pattern (remove_https GITLAB_URL)"
      and "py_in ''include'' dep = Inr False"
      and "subscript dep ''src'' = Inr (YStr src)"
      and "match_src GITLAB_URL src = None"
      and "list_all (\<lambda>e. py_in ''include'' e \<noteq> Inr True) pre"
      and "add_dependencies GITLAB_URL p prjid (YList pre) s = Inr s'"
  shows "add_dependencies GITLAB_URL p prjid (YList (pre @ dep # post)) s = Inl AttributeError"
  using assms
  by (simp add: add_dependencies_def dep_loop_append add_dependency_unmatched)

text \<open>
  A \<^verbatim>\<open>src\<close> that is an \<^verbatim>\<open>https\<close> URL of another host has the shape the metadata
  format asks for; the build of a snapshot that holds such a play ends in the
  exception.
\<close>

theorem unmatched_src_raises_witness:
  "plain_pattern (remove_https example_url)
   \<and> subscript github_dep ''src'' = Inr (YStr ''https://github.com/geerlingguy/ansible-role-nginx.git'')
   \<and> match_src example_url ''https://github.com/geerlingguy/ansible-role-nginx.git'' = None
   \<and> add_dependencies example_url site ''site-5''
        (YList ([webserver_dep] @ github_dep # [])) ([], [], []) = Inl AttributeError
   \<and> generate_projects_data example_url [''infra/''] [webserver, mirror] = Inl AttributeError"
proof -
  have h0: "plain_pattern (remove_https example_url)"
    by code_simp
  have h1: "py_in ''include'' github_dep = Inr False"
    by (simp add: github_dep_def)
  have h2: "subscript github_dep ''src''
              = Inr (YStr ''https://github.com/geerlingguy/ansible-role-nginx.git'')"
    by (simp add: github_dep_def)
  have h4: "list_all (\<lambda>e. py_in ''include'' e \<noteq> Inr True) [webserver_dep]"
    by (simp add: webserver_dep_def)
  have run: "generate_projects_data example_url [''infra/''] [webserver, mirror] = Inl AttributeError"
    by code_simp
  from unmatched_src_raises [OF h0 h1 h2 match_src_github h4 add_dependencies_webserver_dep]
  have "add_dependencies example_url site ''site-5''
        (YList ([webserver_dep] @ github_dep # [])) ([], [], []) = Inl AttributeError" .
  with h0 h2 match_src_github run show ?thesis by blast
qed

section \<open>Properties of the Metadata Fetcher\<close>

lemma find_absent: "f \<notin> fst ` set items \<Longrightarrow> find (\<lambda>x. fst x = f) items = None"
  by (induction items) auto

text \<open>
  C3, as the spec states it, fails: a retrieval error other than not-found does not
  always end the run. A directory listing that raises \<^verbatim>\<open>GitlabGetError\<close> with a
  server error, and a blob retrieval that raises \<^verbatim>\<open>GitlabHttpError\<close>, both print an
  error and return the empty content.
\<close>

theorem get_yaml_content_exit_counterexample:
  "server_error \<noteq> not_found
   \<and> repository_tree flaky ''meta'' = Inl (GitlabGetError server_error)
   \<and> get_yaml_content flaky ''meta'' ''main.yml'' []
       = Inr (YMap [], tree_failed_msgs flaky server_error)
   \<and> repository_tree blobless ''meta'' = Inr [(''main.yml'', ''b1'')]
   \<and> repository_blob blobless ''b1'' = Inl (GitlabHttpError server_error)
   \<and> get_yaml_content blobless ''meta'' ''main.yml'' []
       = Inr (YMap [], [blob_failed_msg server_error])"
  by (simp add: get_yaml_content_def flaky_def blobless_def webserver_def server_error_def
                not_found_def tree_failed_msgs_def blob_failed_msg_def)

text \<open>
  C3, amended. \<^verbatim>\<open>get_yaml_content\<close> returns the empty content when the directory
  listing raises \<^verbatim>\<open>GitlabGetError\<close> (the not-found condition and any other message
  alike; for the others it prints an error as well), when the listing is empty, when
  no entry has the file name, and when retrieving the blob raises
  \<^verbatim>\<open>GitlabHttpError\<close>. It exits with status 255 when the directory listing raises
  \<^verbatim>\<open>GitlabHttpError\<close>.
\<close>

theorem get_yaml_content_failures:
  "(repository_tree p path = Inl (GitlabGetError e) \<longrightarrow>
      get_yaml_content p path f c = Inr (YMap [], c @ tree_failed_msgs p e))
   \<and> (repository_tree p path = Inr [] \<longrightarrow> get_yaml_content p path f c = Inr (YMap [], c))
   \<and> (repository_tree p path = Inr items \<and> f \<notin> fst ` set items \<longrightarrow>
        get_yaml_content p path f c = Inr (YMap [], c))
   \<and> (repository_tree p path = Inr items \<and> find (\<lambda>x. fst x = f) items = Some (f, i)
        \<and> repository_blob p i = Inl (GitlabHttpError e) \<longrightarrow>
        get_yaml_content p path f c = Inr (YMap [], c @ [blob_failed_msg e]))
   \<and> (repository_tree p path = Inl (GitlabHttpError e) \<longrightarrow>
        get_yaml_content p path f c = Inl (SystemExit 255))"
  by (auto simp: get_yaml_content_def tree_failed_msgs_def blob_failed_msg_def find_absent
           split: list.splits)

text \<open>
  The five cases on repositories of the examples: a missing \<^verbatim>\<open>roles\<close> directory, an
  empty directory, a directory without the file, a blob that cannot be retrieved, and
  a listing that raises \<^verbatim>\<open>GitlabHttpError\<close>.
\<close>

theorem get_yaml_content_failures_witness:
  "get_yaml_content webserver ''roles'' ''requirements.yml'' []
     = Inr (YMap [], tree_failed_msgs webserver not_found)
   \<and> get_yaml_content empty_dir ''meta'' ''main.yml'' [] = Inr (YMap [], [])
   \<and> get_yaml_content webserver ''meta'' ''other.yml'' [] = Inr (YMap [], [])
   \<and> get_yaml_content blobless ''meta'' ''main.yml'' []
       = Inr (YMap [], [blob_failed_msg server_error])
   \<and> get_yaml_content denied ''meta'' ''main.yml'' [] = Inl (SystemExit 255)"
proof -
  have t1: "repository_tree webserver ''roles'' = Inl (GitlabGetError not_found)"
    by (simp add: webserver_def)
  have t2: "repository_tree empty_dir ''meta'' = Inr []"
    by (simp add: empty_dir_def)
  have t3: "repository_tree webserver ''meta'' = Inr [(''main.yml'', ''b1'')]
            \<and> ''other.yml'' \<notin> fst ` set [(''main.yml'', ''b1'')]"
    by (simp add: webserver_def)
  have t4: "repository_tree blobless ''meta'' = Inr [(''main.yml'', ''b1'')]
            \<and> find (\<lambda>x. fst x = ''main.yml'') [(''main.yml'', ''b1'')] = Some (''main.yml'', ''b1'')
            \<and> repository_blob blobless ''b1'' = Inl (GitlabHttpError server_error)"
    by (simp add: blobless_def webserver_def)
  have t5: "repository_tree denied ''meta'' = Inl (GitlabHttpError server_error)"
    by (simp add: denied_def)
  from t1 get_yaml_content_failures [of webserver "''roles''" not_found "''requirements.yml''" "[]"]
  have c1: "get_yaml_content webserver ''roles'' ''requirements.yml'' []
              = Inr (YMap [], tree_failed_msgs webserver not_found)"
    by simp
  from t2 get_yaml_content_failures [of empty_dir "''meta''" _ "''main.yml''" "[]"]
  have c2: "get_yaml_content empty_dir ''meta'' ''main.yml'' [] = Inr (YMap [], [])"
    by blast
  from t3 get_yaml_content_failures
            [of webserver "''meta''" _ "''other.yml''" "[]" "[(''main.yml'', ''b1'')]"]
  have c3: "get_yaml_content webserver ''meta'' ''other.yml'' [] = Inr (YMap [], [])"
    by blast
  from t4 get_yaml_content_failures
            [of blobless "''meta''" server_error "''main.yml''" "[]" "[(''main.yml'', ''b1'')]" "''b1''"]
  have c4: "get_yaml_content blobless ''meta'' ''main.yml'' []
              = Inr (YMap [], [blob_failed_msg server_error])"
    by simp
  from t5 get_yaml_content_failures [of denied "''meta''" server_error "''main.yml''" "[]"]
  have c5: "get_yaml_content denied ''meta'' ''main.yml'' [] = Inl (SystemExit 255)"
    by blast
  from c1 c2 c3 c4 c5 show ?thesis by blast
qed

section \<open>Properties of the Attribute Extractor\<close>




lemma match_group_no_slash:
  assumes "slash \<notin> set s"
  shows "match_group s = None"
proof -
  from assms have "dropWhile (\<lambda>c. c \<noteq> slash) (rev s) = []"
    by (auto simp: dropWhile_eq_Nil_conv)
  then show ?thesis by (simp add: match_group_def)
qed








section \<open>Properties of the Inventory Builder\<close>

subsection \<open>Identities\<close>

lemma digit_char_inj: "a < 10 \<Longrightarrow> b < 10 \<Longrightarrow> digit_char a = digit_char b \<Longrightarrow> a = b"
proof -
  assume a: "a < 10" and b: "b < 10" and e: "digit_char a = digit_char b"
  from e have "of_char (char_of (48 + a) :: char) = (of_char (char_of (48 + b) :: char) :: nat)"
    by (simp add: digit_char_def)
  with a b show "a = b" by (simp add: of_char_of)
qed

lemma str_nat_nonempty: "str_nat n \<noteq> []"
  by (subst str_nat.simps) simp

lemma str_nat_last: "last (str_nat n) = digit_char (n mod 10)"
  by (subst str_nat.simps) simp

lemma str_nat_butlast: "butlast (str_nat n) = (if n < 10 then [] else str_nat (n div 10))"
  by (subst str_nat.simps) simp

lemma str_nat_inj: "str_nat n = str_nat m \<Longrightarrow> n = m"
proof (induction n arbitrary: m rule: less_induct)
  case (less n)
  from less.prems have l: "digit_char (n mod 10) = digit_char (m mod 10)"
    by (metis str_nat_last)
  then have mod: "n mod 10 = m mod 10"
    by (intro digit_char_inj) simp_all
  from less.prems have b: "butlast (str_nat n) = butlast (str_nat m)" by simp
  show ?case
  proof (cases "n < 10")
    case True
    with b have "m < 10"
      using str_nat_nonempty [of "m div 10"] by (auto simp: str_nat_butlast split: if_splits)
    with True mod show ?thesis by simp
  next
    case False
    with b have m: "\<not> m < 10" and "str_nat (n div 10) = str_nat (m div 10)"
      using str_nat_nonempty [of "n div 10"] by (auto simp: str_nat_butlast split: if_splits)
    moreover from False have "n div 10 < n" by simp
    ultimately have "n div 10 = m div 10" using less.IH by blast
    with mod show ?thesis by (metis div_mult_mod_eq)
  qed
qed

lemma unknown_id_inj: "unknown_id j = unknown_id i \<Longrightarrow> j = i"
  by (simp add: unknown_id_def str_nat_inj)

lemma digit_char_not_dash: "d < 10 \<Longrightarrow> digit_char d \<noteq> dash"
proof
  assume d: "d < 10" and e: "digit_char d = dash"
  from e have "of_char (char_of (48 + d) :: char) = (of_char (CHR ''-'') :: nat)"
    by (simp add: digit_char_def dash_def)
  with d show False by (simp add: of_char_of)
qed

lemma str_nat_no_dash: "dash \<notin> set (str_nat n)"
proof (induction n rule: str_nat.induct)
  case (1 n)
  show ?case
  proof (cases "n < 10")
    case True
    then show ?thesis
      using digit_char_not_dash [of n] by (subst str_nat.simps) auto
  next
    case False
    with 1 have "dash \<notin> set (str_nat (n div 10))" by simp
    moreover have "digit_char (n mod 10) \<noteq> dash" by (rule digit_char_not_dash) simp
    ultimately show ?thesis using False by (subst str_nat.simps) auto
  qed
qed

lemma split_at_last_dash:
  assumes "a @ dash # s = b @ dash # t" and "dash \<notin> set s" and "dash \<notin> set t"
  shows "a = b \<and> s = t"
proof -
  from assms(1) have "rev (a @ dash # s) = rev (b @ dash # t)" by simp
  then have e: "rev s @ dash # rev a = rev t @ dash # rev b" by simp
  have "takeWhile (\<lambda>c. c \<noteq> dash) (rev s @ dash # rev a) = rev s"
    using assms(2) by (subst takeWhile_append2) auto
  moreover have "takeWhile (\<lambda>c. c \<noteq> dash) (rev t @ dash # rev b) = rev t"
    using assms(3) by (subst takeWhile_append2) auto
  ultimately have "rev s = rev t" using e by simp
  with e show ?thesis by simp
qed

lemma prjid_of_split: "prjid_of p = project_name p @ dash # str_nat (project_id p)"
  by (simp add: prjid_of_def dash_def)

lemma unknown_id_split: "unknown_id k = ''zzz-unknown'' @ dash # str_nat k"
  by (simp add: unknown_id_def dash_def)

text \<open>
  Only a repository named \<^verbatim>\<open>zzz-unknown\<close> has the identity of a placeholder, and
  repositories with the same identity have the same id.
\<close>

lemma prjid_of_unknown:
  assumes "prjid_of p = unknown_id k"
  shows "project_name p = ''zzz-unknown''"
  using split_at_last_dash [OF assms [unfolded prjid_of_split unknown_id_split]
          str_nat_no_dash str_nat_no_dash]
  by simp

lemma prjid_of_inj:
  assumes "prjid_of p = prjid_of q"
  shows "project_id p = project_id q"
  using split_at_last_dash [OF assms [unfolded prjid_of_split] str_nat_no_dash str_nat_no_dash]
  by (simp add: str_nat_inj)

subsection \<open>The reconciliation loop\<close>

lemma reconcile_entry_Inr:
  assumes "reconcile_entry cnt (t, ids) b = Inr b'"
  shows "projects_mapping b' = projects_mapping b"
    and "projects_extern b' = projects_extern b"
    and "entry_value b t ids \<noteq> None"
    and "map_of (projects_data b') k =
           (if k = write_key (projects_mapping b) cnt t then entry_value b t ids
            else map_of (projects_data b) k)"
  using assms
  by (auto simp: reconcile_entry_def write_key_def entry_value_def kind_of_def Let_def
                 map_of_update_list split: option.splits)

lemma reconcile_frame:
  assumes "reconcile cnt items b = Inr b'"
  shows "projects_mapping b' = projects_mapping b \<and> projects_extern b' = projects_extern b \<and>
         (\<forall>k. (\<forall>j<length items. write_key (projects_mapping b) (cnt + j) (fst (items ! j)) \<noteq> k)
              \<longrightarrow> map_of (projects_data b') k = map_of (projects_data b) k)"
  using assms
proof (induction items arbitrary: cnt b)
  case Nil
  then show ?case by simp
next
  case (Cons item items)
  obtain t ids where item: "item = (t, ids)" by (cases item)
  from Cons.prems item obtain b1 where
    b1: "reconcile_entry cnt (t, ids) b = Inr b1" and rest: "reconcile (cnt + 1) items b1 = Inr b'"
    by (auto split: sum.splits)
  note e = reconcile_entry_Inr [OF b1]
  from Cons.IH [OF rest] have
    pm: "projects_mapping b' = projects_mapping b1" and ext: "projects_extern b' = projects_extern b1"
    and fr: "\<And>k. (\<forall>j<length items. write_key (projects_mapping b1) (cnt + 1 + j) (fst (items ! j)) \<noteq> k)
              \<Longrightarrow> map_of (projects_data b') k = map_of (projects_data b1) k"
    by blast+
  show ?case
  proof (intro conjI allI impI)
    show "projects_mapping b' = projects_mapping b" using pm e(1) by simp
    show "projects_extern b' = projects_extern b" using ext e(2) by simp
  next
    fix k
    assume k: "\<forall>j<length (item # items).
                 write_key (projects_mapping b) (cnt + j) (fst ((item # items) ! j)) \<noteq> k"
    from k have k0: "write_key (projects_mapping b) cnt t \<noteq> k"
      using item by fastforce
    have "\<forall>j<length items. write_key (projects_mapping b1) (cnt + 1 + j) (fst (items ! j)) \<noteq> k"
    proof (intro allI impI)
      fix j assume "j < length items"
      then have "Suc j < length (item # items)" by simp
      with k have "write_key (projects_mapping b) (cnt + Suc j) (fst ((item # items) ! Suc j)) \<noteq> k"
        by blast
      then show "write_key (projects_mapping b1) (cnt + 1 + j) (fst (items ! j)) \<noteq> k"
        using e(1) by simp
    qed
    from fr [OF this] have "map_of (projects_data b') k = map_of (projects_data b1) k" .
    also have "\<dots> = map_of (projects_data b) k" using e(4) [of k] k0 by auto
    finally show "map_of (projects_data b') k = map_of (projects_data b) k" .
  qed
qed

lemma entry_value_cong:
  assumes "projects_mapping b1 = projects_mapping b" "projects_extern b1 = projects_extern b"
      and "\<And>pid. lookup_mapping (projects_mapping b) t = Some pid \<Longrightarrow>
             map_of (projects_data b1) pid = map_of (projects_data b) pid"
  shows "entry_value b1 t ids = entry_value b t ids"
  using assms by (auto simp: entry_value_def split: option.splits)

text \<open>
  When no other round stores under the identity of round \<open>i\<close>, the loop leaves there
  what round \<open>i\<close> stored.
\<close>

lemma reconcile_nth:
  assumes "reconcile cnt items b = Inr b'"
      and "i < length items" and "items ! i = (t, ids)"
      and "\<forall>j<length items. j \<noteq> i \<longrightarrow>
             write_key (projects_mapping b) (cnt + j) (fst (items ! j))
               \<noteq> write_key (projects_mapping b) (cnt + i) t"
  shows "map_of (projects_data b') (write_key (projects_mapping b) (cnt + i) t) = entry_value b t ids
         \<and> entry_value b t ids \<noteq> None"
  using assms
proof (induction items arbitrary: cnt b i)
  case Nil
  then show ?case by simp
next
  case (Cons item items)
  obtain t0 ids0 where item: "item = (t0, ids0)" by (cases item)
  from Cons.prems(1) item obtain b1 where
    b1: "reconcile_entry cnt (t0, ids0) b = Inr b1" and rest: "reconcile (cnt + 1) items b1 = Inr b'"
    by (auto split: sum.splits)
  note e = reconcile_entry_Inr [OF b1]
  let ?pm = "projects_mapping b"
  show ?case
  proof (cases i)
    case 0
    with Cons.prems(3) item have t0: "t0 = t" "ids0 = ids" by simp_all
    have others: "\<forall>j<length items. write_key (projects_mapping b1) (cnt + 1 + j) (fst (items ! j))
                    \<noteq> write_key ?pm cnt t"
    proof (intro allI impI)
      fix j assume "j < length items"
      then have "Suc j < length (item # items)" "Suc j \<noteq> i" using 0 by simp_all
      with Cons.prems(4) have "write_key ?pm (cnt + Suc j) (fst ((item # items) ! Suc j))
                    \<noteq> write_key ?pm (cnt + i) t" by blast
      then show "write_key (projects_mapping b1) (cnt + 1 + j) (fst (items ! j)) \<noteq> write_key ?pm cnt t"
        using e(1) 0 by simp
    qed
    from reconcile_frame [OF rest] others
    have "map_of (projects_data b') (write_key ?pm cnt t) = map_of (projects_data b1) (write_key ?pm cnt t)"
      by blast
    also have "\<dots> = entry_value b t ids" using e(4) [of "write_key ?pm cnt t"] t0 by simp
    finally show ?thesis using 0 e(3) t0 by simp
  next
    case (Suc i')
    with Cons.prems(2,3) have i': "i' < length items" "items ! i' = (t, ids)" by simp_all
    have key0: "write_key ?pm cnt t0 \<noteq> write_key ?pm (cnt + i) t"
      using Cons.prems(4) [rule_format, of 0] Suc item by simp
    have others: "\<forall>j<length items. j \<noteq> i' \<longrightarrow>
             write_key (projects_mapping b1) (cnt + 1 + j) (fst (items ! j))
               \<noteq> write_key (projects_mapping b1) (cnt + 1 + i') t"
    proof (intro allI impI)
      fix j assume "j < length items" "j \<noteq> i'"
      then have "Suc j < length (item # items)" "Suc j \<noteq> i" using Suc by simp_all
      with Cons.prems(4) have "write_key ?pm (cnt + Suc j) (fst ((item # items) ! Suc j))
                    \<noteq> write_key ?pm (cnt + i) t" by blast
      then show "write_key (projects_mapping b1) (cnt + 1 + j) (fst (items ! j))
               \<noteq> write_key (projects_mapping b1) (cnt + 1 + i') t"
        using e(1) Suc by simp
    qed
    from Cons.IH [OF rest i' others]
    have ih: "map_of (projects_data b') (write_key (projects_mapping b1) (cnt + 1 + i') t)
                = entry_value b1 t ids" and ne: "entry_value b1 t ids \<noteq> None" by simp_all
    have "entry_value b1 t ids = entry_value b t ids"
    proof (rule entry_value_cong [OF e(1) e(2)])
      fix pid assume "lookup_mapping ?pm t = Some pid"
      then have "write_key ?pm (cnt + i) t = pid" by (simp add: write_key_def)
      with key0 show "map_of (projects_data b1) pid = map_of (projects_data b) pid"
        using e(4) [of pid] by auto
    qed
    with ih ne show ?thesis using e(1) Suc by simp
  qed
qed

lemma lookup_mapping_ran: "lookup_mapping pm t = Some pid \<Longrightarrow> pid \<in> ran (map_of pm)"
  by (cases t) (auto simp: ran_def)

lemma lookup_mapping_Some:
  "lookup_mapping pm t = Some pid \<Longrightarrow> \<exists>path. t = YStr path \<and> map_of pm path = Some pid"
  by (cases t) auto

lemma dom_map_of_fst: "(map_of al k \<noteq> None) = (k \<in> fst ` set al)"
  by (simp add: map_of_eq_None_iff)

lemma reconcile_entry_keys:
  assumes "reconcile_entry cnt (t, ids) b = Inr b'"
  shows "fst ` set (projects_data b') =
           insert (write_key (projects_mapping b) cnt t) (fst ` set (projects_data b))"
proof -
  note e = reconcile_entry_Inr [OF assms]
  have "\<And>k. (k \<in> fst ` set (projects_data b')) =
              (k = write_key (projects_mapping b) cnt t \<or> k \<in> fst ` set (projects_data b))"
    using e(3) e(4) by (simp flip: dom_map_of_fst)
  then show ?thesis by blast
qed

text \<open>
  The loop does not raise when every identity of the mapping is an identity of an
  entity.
\<close>

lemma reconcile_entry_succeeds:
  assumes "ran (map_of (projects_mapping b)) \<subseteq> fst ` set (projects_data b)"
  shows "\<exists>b'. reconcile_entry cnt (t, ids) b = Inr b'"
proof (cases "lookup_mapping (projects_mapping b) t")
  case None
  then show ?thesis by (simp add: reconcile_entry_def Let_def)
next
  case (Some pid)
  with assms have "pid \<in> fst ` set (projects_data b)"
    using lookup_mapping_ran by blast
  then obtain e where "map_of (projects_data b) pid = Some e"
    using dom_map_of_fst [of "projects_data b" pid] by auto
  with Some show ?thesis by (simp add: reconcile_entry_def)
qed

lemma reconcile_succeeds:
  assumes "ran (map_of (projects_mapping b)) \<subseteq> fst ` set (projects_data b)"
  shows "\<exists>b'. reconcile cnt items b = Inr b'"
  using assms
proof (induction items arbitrary: cnt b)
  case Nil
  then show ?case by simp
next
  case (Cons item items)
  obtain t ids where item: "item = (t, ids)" by (cases item)
  from reconcile_entry_succeeds [OF Cons.prems] obtain b1 where
    b1: "reconcile_entry cnt (t, ids) b = Inr b1" by blast
  from reconcile_entry_Inr(1) [OF b1] reconcile_entry_keys [OF b1] Cons.prems
  have "ran (map_of (projects_mapping b1)) \<subseteq> fst ` set (projects_data b1)" by auto
  from Cons.IH [OF this] obtain b' where "reconcile (cnt + 1) items b1 = Inr b'" by blast
  with b1 item show ?case by simp
qed

lemma reconcile_keys:
  assumes "reconcile cnt items b = Inr b'"
  shows "fst ` set (projects_data b') =
           fst ` set (projects_data b)
           \<union> (\<lambda>j. write_key (projects_mapping b) (cnt + j) (fst (items ! j))) ` {..<length items}"
  using assms
proof (induction items arbitrary: cnt b)
  case Nil
  then show ?case by simp
next
  case (Cons item items)
  obtain t ids where item: "item = (t, ids)" by (cases item)
  from Cons.prems item obtain b1 where
    b1: "reconcile_entry cnt (t, ids) b = Inr b1" and rest: "reconcile (cnt + 1) items b1 = Inr b'"
    by (auto split: sum.splits)
  let ?w = "\<lambda>j. write_key (projects_mapping b) (cnt + j) (fst ((item # items) ! j))"
  have "(\<lambda>j. write_key (projects_mapping b1) (cnt + 1 + j) (fst (items ! j))) ` {..<length items}
          = (\<lambda>j. ?w (Suc j)) ` {..<length items}"
    using reconcile_entry_Inr(1) [OF b1] by simp
  also have "\<dots> = ?w ` Suc ` {..<length items}" by (simp add: image_image)
  finally have shift: "(\<lambda>j. write_key (projects_mapping b1) (cnt + 1 + j) (fst (items ! j))) ` {..<length items}
          = ?w ` Suc ` {..<length items}" .
  have "{..<length (item # items)} = insert 0 (Suc ` {..<length items})"
    by (simp add: lessThan_Suc_eq_insert_0)
  then have "?w ` {..<length (item # items)} = insert (?w 0) (?w ` Suc ` {..<length items})"
    by simp
  moreover have "?w 0 = write_key (projects_mapping b) cnt t" using item by simp
  ultimately show ?case
    using Cons.IH [OF rest] reconcile_entry_keys [OF b1] shift by auto
qed

lemma write_keys_differ:
  assumes dk: "distinct (map fst items)"
      and inj: "inj_on (lookup_mapping pm) {t \<in> fst ` set items. lookup_mapping pm t \<noteq> None}"
      and h3: "ran (map_of pm) \<subseteq> fst ` set pd"
      and h2: "\<forall>k. unknown_id k \<notin> fst ` set pd"
      and i: "i < length items" and j: "j < length items" and ji: "j \<noteq> i"
  shows "write_key pm (cnt + j) (fst (items ! j)) \<noteq> write_key pm (cnt + i) (fst (items ! i))"
proof -
  let ?ti = "fst (items ! i)" and ?tj = "fst (items ! j)"
  from dk i j ji have tt: "?tj \<noteq> ?ti"
    by (metis distinct_conv_nth length_map nth_map)
  have mem: "?ti \<in> fst ` set items" "?tj \<in> fst ` set items" using i j by simp_all
  show ?thesis
  proof (cases "lookup_mapping pm ?ti")
    case None
    note ni = None
    show ?thesis
    proof (cases "lookup_mapping pm ?tj")
      case None
      with ni ji show ?thesis by (auto simp: write_key_def dest: unknown_id_inj)
    next
      case (Some pid)
      with h3 h2 ni show ?thesis
        using lookup_mapping_ran [OF Some] by (auto simp: write_key_def)
    qed
  next
    case (Some pid)
    note si = Some
    show ?thesis
    proof (cases "lookup_mapping pm ?tj")
      case None
      with h3 h2 si show ?thesis
        using lookup_mapping_ran [OF si] by (auto simp: write_key_def)
    next
      case (Some pid')
      have "pid' \<noteq> pid"
      proof
        assume "pid' = pid"
        with Some si have "lookup_mapping pm ?tj = lookup_mapping pm ?ti" by simp
        with inj mem Some si have "?tj = ?ti" by (auto simp: inj_on_def)
        with tt show False by simp
      qed
      with Some si show ?thesis by (simp add: write_key_def)
    qed
  qed
qed

lemma reconcile_pairs:
  assumes dk: "distinct (map fst items)"
      and inj: "inj_on (lookup_mapping (projects_mapping b))
                  {t \<in> fst ` set items. lookup_mapping (projects_mapping b) t \<noteq> None}"
      and h3: "ran (map_of (projects_mapping b)) \<subseteq> fst ` set (projects_data b)"
      and h2: "\<forall>k. unknown_id k \<notin> fst ` set (projects_data b)"
  shows "\<exists>b'. reconcile 0 items b = Inr b' \<and>
           (\<forall>i t ids. i < length items \<and> items ! i = (t, ids) \<longrightarrow>
              map_of (projects_data b') (write_key (projects_mapping b) i t) = entry_value b t ids
              \<and> entry_value b t ids \<noteq> None) \<and>
           fst ` set (projects_data b') =
             fst ` set (projects_data b)
             \<union> unknown_id ` {j. j < length items
                                 \<and> lookup_mapping (projects_mapping b) (fst (items ! j)) = None}"
proof -
  let ?pm = "projects_mapping b"
  from reconcile_succeeds [OF h3] obtain b' where b': "reconcile 0 items b = Inr b'" by blast
  have nth: "map_of (projects_data b') (write_key ?pm i t) = entry_value b t ids
              \<and> entry_value b t ids \<noteq> None"
    if i: "i < length items" and it: "items ! i = (t, ids)" for i t ids
  proof -
    have "write_key ?pm (0 + j) (fst (items ! j)) \<noteq> write_key ?pm (0 + i) t"
      if "j < length items" "j \<noteq> i" for j
    proof -
      from it have "fst (items ! i) = t" by simp
      with write_keys_differ [OF dk inj h3 h2 i that, of 0] show ?thesis by simp
    qed
    then have "\<forall>j<length items. j \<noteq> i \<longrightarrow>
             write_key ?pm (0 + j) (fst (items ! j)) \<noteq> write_key ?pm (0 + i) t"
      by blast
    from reconcile_nth [OF b' i it this] show ?thesis by simp
  qed
  let ?w = "\<lambda>j. write_key ?pm (0 + j) (fst (items ! j))"
  let ?A = "fst ` set (projects_data b)"
  let ?U = "{j. j < length items \<and> lookup_mapping ?pm (fst (items ! j)) = None}"
  have "?A \<union> ?w ` {..<length items} = ?A \<union> unknown_id ` ?U"
  proof (intro equalityI subsetI)
    fix k assume "k \<in> ?A \<union> ?w ` {..<length items}"
    then consider "k \<in> ?A" | j where "j < length items" "k = ?w j"
      by blast
    then show "k \<in> ?A \<union> unknown_id ` ?U"
    proof cases
      case 1
      then show ?thesis by simp
    next
      case 2
      show ?thesis
      proof (cases "lookup_mapping ?pm (fst (items ! j))")
        case None
        with 2 have "j \<in> ?U" "k = unknown_id j" by (simp_all add: write_key_def)
        then show ?thesis by blast
      next
        case (Some pid)
        with 2 have "k = pid" by (simp add: write_key_def)
        with h3 lookup_mapping_ran [OF Some] show ?thesis by blast
      qed
    qed
  next
    fix k assume "k \<in> ?A \<union> unknown_id ` ?U"
    then consider "k \<in> ?A"
      | j where "j < length items" "lookup_mapping ?pm (fst (items ! j)) = None" "k = unknown_id j"
      by blast
    then show "k \<in> ?A \<union> ?w ` {..<length items}"
    proof cases
      case 1
      then show ?thesis by simp
    next
      case 2
      then have "k = ?w j" by (simp add: write_key_def)
      with 2(1) show ?thesis by blast
    qed
  qed
  moreover from reconcile_keys [OF b']
  have "fst ` set (projects_data b') = ?A \<union> ?w ` {..<length items}" .
  ultimately have "fst ` set (projects_data b') = ?A \<union> unknown_id ` ?U"
    by (rule_tac trans)
  with b' nth show ?thesis by blast
qed

subsection \<open>What the traversal keeps\<close>

lemma edge_add_distinct_keys:
  "distinct (map fst u) \<Longrightarrow> distinct (map fst (edge_add u t prjid))"
  by (auto simp: edge_add_def distinct_update split: option.splits)

lemma dep_loop_invariant:
  assumes "dep_loop GITLAB_URL p prjid deps (u, x, c) = Inr (u', x', c')"
      and "P u" and "\<And>v t. P v \<Longrightarrow> P (edge_add v t prjid)"
  shows "P u'"
  using assms(1,2)
proof (induction deps arbitrary: u x c)
  case Nil
  then show ?case by simp
next
  case (Cons dep deps)
  from Cons.prems obtain r where r: "add_dependency GITLAB_URL p prjid dep (u, x, c) = Inr r"
    by (cases "add_dependency GITLAB_URL p prjid dep (u, x, c)") auto
  from add_dependency_edges [OF r] show ?case
  proof (elim disjE exE)
    fix x1 c1
    assume "r = Break (u, x1, c1)"
    with r Cons.prems show ?thesis by simp
  next
    fix t x1 c1
    assume "r = Continue (edge_add u t prjid, x1, c1)"
    with r Cons.prems
    have "dep_loop GITLAB_URL p prjid deps (edge_add u t prjid, x1, c1) = Inr (u', x', c')"
      by simp
    from Cons.IH [OF this assms(3) [OF Cons.prems(2)]] show ?thesis .
  qed
qed

lemma run_linker_Inr:
  assumes "run_linker GITLAB_URL p dep_list b = Inr b'"
  shows "projects_data b' = projects_data b \<and> projects_mapping b' = projects_mapping b \<and>
         (\<exists>deps x c. dep_loop GITLAB_URL p (prjid_of p) deps
                        (used_by_data b, projects_extern b, printed b) = Inr (used_by_data b', x, c))"
  using assms
  by (fastforce simp: run_linker_def add_dependencies_def split: sum.splits prod.splits)

lemma run_linker_traversed:
  assumes "run_linker GITLAB_URL p dep_list b = Inr b'" and "traversed ps b"
  shows "traversed ps b'"
proof -
  from run_linker_Inr [OF assms(1)] obtain deps x c where
    pd: "projects_data b' = projects_data b" and pm: "projects_mapping b' = projects_mapping b"
    and loop: "dep_loop GITLAB_URL p (prjid_of p) deps
                 (used_by_data b, projects_extern b, printed b) = Inr (used_by_data b', x, c)"
    by blast
  have "distinct (map fst (used_by_data b'))"
    by (rule dep_loop_invariant [OF loop, where P = "\<lambda>u. distinct (map fst u)"])
       (use assms(2) in \<open>auto simp: traversed_def edge_add_distinct_keys\<close>)
  moreover have "no_duplicates (used_by_data b')"
    by (rule dep_loop_invariant [OF loop, where P = no_duplicates])
       (use assms(2) in \<open>auto simp: traversed_def edge_add_no_duplicates\<close>)
  ultimately show ?thesis using assms(2) pd pm by (simp add: traversed_def)
qed

lemma record_entity_traversed:
  assumes "traversed ps b" and "p \<in> ps" and "match_group (path_with_namespace p) \<noteq> None"
  shows "traversed ps (record_entity p attrs b)"
  using assms
  by (auto simp: traversed_def record_entity_def update_conv' dom_update)

lemma set_role_attributes_group:
  "set_role_attributes p content = Inr r \<Longrightarrow> match_group (path_with_namespace p) \<noteq> None"
  by (auto simp: set_role_attributes_def project_group_def split: sum.splits option.splits)

lemma set_play_attributes_group:
  "set_play_attributes p content = Inr r \<Longrightarrow> match_group (path_with_namespace p) \<noteq> None"
  by (auto simp: set_play_attributes_def project_group_def split: sum.splits option.splits)

lemma traversed_ghost [simp]:
  "traversed ps (b\<lparr> visited := v \<rparr>) = traversed ps b"
  "traversed ps (b\<lparr> fetched := f \<rparr>) = traversed ps b"
  "traversed ps (b\<lparr> printed := c \<rparr>) = traversed ps b"
  by (simp_all add: traversed_def)

lemma role_found_cases:
  assumes "role_found GITLAB_URL p content b = Inr b'"
  shows "(\<exists>c v. b' = b\<lparr> printed := c, visited := v \<rparr>)
       \<or> (\<exists>attrs v. set_role_attributes p content = Inr attrs
                    \<and> b' = (record_entity p attrs b)\<lparr> visited := v \<rparr>)
       \<or> (\<exists>attrs deps. set_role_attributes p content = Inr attrs
                    \<and> run_linker GITLAB_URL p deps (record_entity p attrs b) = Inr b')"
  using assms
  by (auto simp: role_found_def split: if_splits sum.splits bool.splits)

lemma role_found_traversed:
  assumes "role_found GITLAB_URL p content b = Inr b'" and "traversed ps b" and "p \<in> ps"
  shows "traversed ps b'"
  using role_found_cases [OF assms(1)]
proof (elim disjE exE conjE)
  fix c v assume "b' = b\<lparr> printed := c, visited := v \<rparr>"
  with assms(2) show ?thesis by simp
next
  fix attrs v
  assume a: "set_role_attributes p content = Inr attrs"
    and b': "b' = (record_entity p attrs b)\<lparr> visited := v \<rparr>"
  from record_entity_traversed [OF assms(2,3) set_role_attributes_group [OF a]] b'
  show ?thesis by simp
next
  fix attrs deps
  assume a: "set_role_attributes p content = Inr attrs"
    and l: "run_linker GITLAB_URL p deps (record_entity p attrs b) = Inr b'"
  from run_linker_traversed [OF l record_entity_traversed [OF assms(2,3) set_role_attributes_group [OF a]]]
  show ?thesis .
qed

lemma play_attempt_traversed:
  assumes "play_attempt GITLAB_URL p b = Inr b'" and "traversed ps b" and "p \<in> ps"
  shows "traversed ps b'"
proof -
  from assms(1) obtain content c where
    g: "get_yaml_content p ''roles'' ''requirements.yml'' (printed b) = Inr (content, c)"
    by (auto simp: play_attempt_def split: sum.splits prod.splits)
  let ?b1 = "b\<lparr> printed := c,
                 fetched := fetched b @ [(project_id p, ''roles'', ''requirements.yml'')] \<rparr>"
  have t1: "traversed ps ?b1" using assms(2) by simp
  show ?thesis
  proof (cases "truthy content")
    case False
    with assms(1) g have "b' = ?b1\<lparr> visited := visited b @ [(project_id p, NoMetadata)] \<rparr>"
      by (simp add: play_attempt_def Let_def)
    with t1 show ?thesis by simp
  next
    case True
    note tr = True
    show ?thesis
    proof (cases "isinstance_str content")
      case True
      with tr assms(1) g have "\<exists>c' v. b' = ?b1\<lparr> printed := c', visited := v \<rparr>"
        by (auto simp: play_attempt_def Let_def)
      with t1 show ?thesis by auto
    next
      case False
      with tr assms(1) g obtain attrs where a: "set_play_attributes p content = Inr attrs"
        and l: "run_linker GITLAB_URL p content (record_entity p attrs ?b1) = Inr b'"
        by (auto simp: play_attempt_def Let_def split: sum.splits)
      from run_linker_traversed
             [OF l record_entity_traversed [OF t1 assms(3) set_play_attributes_group [OF a]]]
      show ?thesis .
    qed
  qed
qed

lemma process_project_traversed:
  assumes "process_project GITLAB_URL p b = Inr b'" and "traversed ps b" and "p \<in> ps"
  shows "traversed ps b'"
proof -
  from assms(1) obtain c f where
    "role_found GITLAB_URL p c (b\<lparr> printed := f, fetched := fetched b @ [(project_id p, ''meta'', ''main.yml'')] \<rparr>) = Inr b'
     \<or> play_attempt GITLAB_URL p (b\<lparr> printed := f, fetched := fetched b @ [(project_id p, ''meta'', ''main.yml'')] \<rparr>) = Inr b'"
    by (auto simp: process_project_def Let_def split: if_splits sum.splits prod.splits)
  moreover have "traversed ps (b\<lparr> printed := f, fetched := fetched b @ [(project_id p, ''meta'', ''main.yml'')] \<rparr>)"
    using assms(2) by simp
  ultimately show ?thesis
    using role_found_traversed play_attempt_traversed assms(3) by blast
qed

lemma filter_loop_traversed:
  assumes "filter_loop GITLAB_URL p paths b = Inr b'" and "traversed ps b" and "p \<in> ps"
  shows "traversed ps b'"
  using assms(1,2)
proof (induction paths arbitrary: b)
  case Nil
  then show ?case by simp
next
  case (Cons path paths)
  show ?case
  proof (cases "re_match path (path_with_namespace p)")
    case True
    with Cons.prems(1) obtain b1 where b1: "process_project GITLAB_URL p b = Inr b1"
      and rest: "filter_loop GITLAB_URL p paths b1 = Inr b'"
      by (auto split: sum.splits)
    from Cons.IH [OF rest process_project_traversed [OF b1 Cons.prems(2) assms(3)]]
    show ?thesis .
  next
    case False
    with Cons.prems Cons.IH show ?thesis by simp
  qed
qed

lemma project_loop_traversed:
  assumes "project_loop GITLAB_URL PATH_FILTERS projects b = Inr b'"
      and "traversed ps b" and "set projects \<subseteq> ps"
  shows "traversed ps b'"
  using assms
proof (induction projects arbitrary: b)
  case Nil
  then show ?case by simp
next
  case (Cons p projects)
  show ?case
  proof (cases "archived p")
    case True
    with Cons.prems have "project_loop GITLAB_URL PATH_FILTERS projects
                            (b\<lparr> printed := printed b @ [archived_msg p] \<rparr>) = Inr b'"
      by simp
    moreover have "traversed ps (b\<lparr> printed := printed b @ [archived_msg p] \<rparr>)"
      using Cons.prems(2) by simp
    ultimately show ?thesis using Cons.IH Cons.prems(3) by simp
  next
    case False
    with Cons.prems(1) obtain b1 where b1: "filter_loop GITLAB_URL p PATH_FILTERS b = Inr b1"
      and rest: "project_loop GITLAB_URL PATH_FILTERS projects b1 = Inr b'"
      by (auto split: sum.splits)
    from Cons.prems(3) have "p \<in> ps" by simp
    from filter_loop_traversed [OF b1 Cons.prems(2) this] rest Cons.IH Cons.prems(3)
    show ?thesis by simp
  qed
qed

lemma traverse_traversed:
  assumes "traverse GITLAB_URL PATH_FILTERS projects = Inr b"
  shows "traversed (set projects) b"
proof -
  have "traversed (set projects) initial"
    by (simp add: traversed_def initial_def no_duplicates_def)
  from project_loop_traversed [OF assms [unfolded traverse_def] this] show ?thesis by simp
qed

lemma traversed_reconcile_hyps:
  assumes t: "traversed (set projects) b"
      and d: "distinct (map project_id projects)"
      and n: "\<forall>p\<in>set projects. project_name p \<noteq> ''zzz-unknown''"
  shows "inj_on (lookup_mapping (projects_mapping b))
           {t \<in> fst ` set (used_by_data b). lookup_mapping (projects_mapping b) t \<noteq> None}"
    and "ran (map_of (projects_mapping b)) \<subseteq> fst ` set (projects_data b)"
    and "\<forall>k. unknown_id k \<notin> fst ` set (projects_data b)"
    and "distinct (map fst (used_by_data b))"
proof -
  from t have pm_all: "\<forall>path pid. map_of (projects_mapping b) path = Some pid \<longrightarrow>
         pid \<in> fst ` set (projects_data b) \<and>
         (\<exists>p\<in>set projects. path = path_with_namespace p \<and> pid = prjid_of p
                            \<and> match_group path \<noteq> None)"
    and pd: "fst ` set (projects_data b) \<subseteq> prjid_of ` set projects"
    and dk: "distinct (map fst (used_by_data b))"
    by (simp_all add: traversed_def)
  have pm: "pid \<in> fst ` set (projects_data b) \<and>
         (\<exists>p\<in>set projects. path = path_with_namespace p \<and> pid = prjid_of p)"
    if "map_of (projects_mapping b) path = Some pid" for path pid
    using pm_all that by blast
  from d have inj: "inj_on project_id (set projects)" by (simp add: distinct_map)
  show "inj_on (lookup_mapping (projects_mapping b))
           {t \<in> fst ` set (used_by_data b). lookup_mapping (projects_mapping b) t \<noteq> None}"
  proof (rule inj_onI)
    fix x y
    assume x: "x \<in> {t \<in> fst ` set (used_by_data b). lookup_mapping (projects_mapping b) t \<noteq> None}"
      and e: "lookup_mapping (projects_mapping b) x = lookup_mapping (projects_mapping b) y"
    from x obtain pid where xp: "lookup_mapping (projects_mapping b) x = Some pid" by auto
    with e have yp: "lookup_mapping (projects_mapping b) y = Some pid" by simp
    from lookup_mapping_Some [OF xp] obtain px where px: "x = YStr px"
      "map_of (projects_mapping b) px = Some pid" by blast
    from lookup_mapping_Some [OF yp] obtain py where py: "y = YStr py"
      "map_of (projects_mapping b) py = Some pid" by blast
    from pm [OF px(2)] obtain p where p: "p \<in> set projects" "px = path_with_namespace p"
      "pid = prjid_of p" by blast
    from pm [OF py(2)] obtain q where q: "q \<in> set projects" "py = path_with_namespace q"
      "pid = prjid_of q" by blast
    from p(3) q(3) have "prjid_of p = prjid_of q" by simp
    then have "project_id p = project_id q" by (rule prjid_of_inj)
    from inj this p(1) q(1) have "p = q" by (rule inj_onD)
    with p(2) q(2) px(1) py(1) show "x = y" by simp
  qed
  show "ran (map_of (projects_mapping b)) \<subseteq> fst ` set (projects_data b)"
  proof
    fix pid assume "pid \<in> ran (map_of (projects_mapping b))"
    then obtain path where "map_of (projects_mapping b) path = Some pid"
      unfolding ran_def by blast
    from pm [OF this] show "pid \<in> fst ` set (projects_data b)" by simp
  qed
  show "\<forall>k. unknown_id k \<notin> fst ` set (projects_data b)"
  proof (intro allI notI)
    fix k assume "unknown_id k \<in> fst ` set (projects_data b)"
    with pd have "unknown_id k \<in> prjid_of ` set projects" by blast
    then obtain p where "p \<in> set projects" "prjid_of p = unknown_id k" by auto
    with n prjid_of_unknown show False by blast
  qed
  show "distinct (map fst (used_by_data b))" by (rule dk)
qed

lemma map_sum_Inr: "map_sum f g x = Inr y \<Longrightarrow> \<exists>b. x = Inr b \<and> g b = y"
  by (cases x) auto

subsection \<open>The reconciliation of every pair\<close>

text \<open>
  C2 does not hold of the code: the pass takes the identity of a placeholder from the
  running counter alone (\<^verbatim>\<open>"zzz-unknown-" + str(cnt)\<close>, under the comment
  \<^verbatim>\<open>need to generate a id for this unknown project\<close>) and never looks whether an
  entity has that identity already. The role repository named \<^verbatim>\<open>zzz-unknown\<close> with id 1 has the
  identity \<^verbatim>\<open>zzz-unknown-1\<close>. The play \<^verbatim>\<open>infra/haunted\<close> requires two roles that no
  repository holds; the second unresolved pair of the edge table, at counter 1, gets
  the same identity, and its placeholder replaces the entity of the role. No entity is
  created for that pair and the discovered role is lost: the result has three
  entities for two repositories and two unresolved pairs.
\<close>

theorem placeholder_replaces_discovered_role:
  "prjid_of zzz = unknown_id 1
   \<and> map_sum id (\<lambda>b. map_of (projects_data b) (unknown_id 1))
        (traverse example_url [''infra/''] [zzz, haunted])
       = Inr (Some \<lparr> description = Some (YStr ''Installs nginx''), platforms = Some (YList []),
                     galaxy_tags = Some (YList []), state = ''role'', name = YStr ''zzz-unknown'',
                     url = ''git@gitlab.example.com:infra/zzz-unknown.git'',
                     web_url = ''https://gitlab.example.com/infra/zzz-unknown'',
                     group = ''infra'', git_tags = [], used_by = [] \<rparr>)
   \<and> map_sum id used_by_data (traverse example_url [''infra/''] [zzz, haunted])
       = Inr [(YStr ''infra/ghost'', [''haunted-9'']), (YStr ''infra/phantom'', [''haunted-9''])]
   \<and> generate_projects_data example_url [''infra/''] [zzz, haunted]
       = Inr [(unknown_id 1,
               (placeholder ''role_unknown'' (YStr ''infra/phantom''))\<lparr> used_by := [''haunted-9''] \<rparr>),
              (''haunted-9'',
               \<lparr> description = None, platforms = None, galaxy_tags = None,
                 state = ''play'', name = YStr ''haunted'',
                 url = ''git@gitlab.example.com:infra/haunted.git'',
                 web_url = ''https://gitlab.example.com/infra/haunted'',
                 group = ''infra'', git_tags = [], used_by = [] \<rparr>),
              (unknown_id 0,
               (placeholder ''role_unknown'' (YStr ''infra/ghost''))\<lparr> used_by := [''haunted-9''] \<rparr>)]"
  by code_simp

text \<open>
  The collision needs a repository of that name. Let the traversal return the tables
  \<open>b\<close>, for repositories with distinct ids none of which is named \<^verbatim>\<open>zzz-unknown\<close>:
  then no placeholder identity is that of a discovered entity, the build returns, and
  for the pair \<open>(target, ids)\<close> at position \<open>i\<close> of the edge table (counted from 0):
  if the mapping has the target, the entity of the mapped identity is the one the
  traversal built with \<^verbatim>\<open>used_by\<close> replaced by \<open>ids\<close>; otherwise the identity
  \<^verbatim>\<open>zzz-unknown-\<close>\<open>i\<close> is no identity of a discovered entity and differs from that of
  every other position, and its entity is the placeholder of the target:
  \<^verbatim>\<open>role_extern\<close> if the target is in the external list and \<^verbatim>\<open>role_unknown\<close>
  otherwise, \<^verbatim>\<open>url\<close> and \<^verbatim>\<open>web_url\<close> empty, \<^verbatim>\<open>used_by\<close> equal to \<open>ids\<close>. The
  identities of the result are those of the traversal and one placeholder identity for
  each unresolved pair.
\<close>

lemma reconciliation_without_collision:
  assumes "traverse GITLAB_URL PATH_FILTERS projects = Inr b"
      and "distinct (map project_id projects)"
      and "\<forall>p\<in>set projects. project_name p \<noteq> ''zzz-unknown''"
  shows "\<exists>b'. build_all GITLAB_URL PATH_FILTERS projects = Inr b' \<and>
           (\<forall>i target ids. i < length (used_by_data b) \<and> used_by_data b ! i = (target, ids) \<longrightarrow>
              (case lookup_mapping (projects_mapping b) target of
                 Some pid \<Rightarrow>
                   (\<exists>e. map_of (projects_data b) pid = Some e \<and>
                        map_of (projects_data b') pid = Some (e\<lparr> used_by := ids \<rparr>))
               | None \<Rightarrow>
                   unknown_id i \<notin> fst ` set (projects_data b) \<and>
                   (\<forall>j. j \<noteq> i \<longrightarrow> unknown_id j \<noteq> unknown_id i) \<and>
                   (\<exists>e. map_of (projects_data b') (unknown_id i) = Some e \<and>
                        e = (placeholder (if target \<in> set (projects_extern b)
                                          then ''role_extern'' else ''role_unknown'') target)
                              \<lparr> used_by := ids \<rparr> \<and>
                        state e = (if target \<in> set (projects_extern b)
                                   then ''role_extern'' else ''role_unknown'') \<and>
                        name e = target \<and> url e = [] \<and> web_url e = [] \<and> used_by e = ids))) \<and>
           fst ` set (projects_data b') =
             fst ` set (projects_data b)
             \<union> unknown_id ` {j. j < length (used_by_data b)
                                 \<and> lookup_mapping (projects_mapping b) (fst (used_by_data b ! j)) = None}"
proof -
  note t = traverse_traversed [OF assms(1)]
  note h = traversed_reconcile_hyps [OF t assms(2,3)]
  from reconcile_pairs [OF h(4) h(1) h(2) h(3)] obtain b' where
    all3: "reconcile 0 (used_by_data b) b = Inr b' \<and>
           (\<forall>i t ids. i < length (used_by_data b) \<and> used_by_data b ! i = (t, ids) \<longrightarrow>
              map_of (projects_data b') (write_key (projects_mapping b) i t) = entry_value b t ids
              \<and> entry_value b t ids \<noteq> None) \<and>
           fst ` set (projects_data b') =
             fst ` set (projects_data b)
             \<union> unknown_id ` {j. j < length (used_by_data b)
                                 \<and> lookup_mapping (projects_mapping b) (fst (used_by_data b ! j)) = None}" ..
  note b' = all3 [THEN conjunct1]
  note keys = all3 [THEN conjunct2, THEN conjunct2]
  have nth: "map_of (projects_data b') (write_key (projects_mapping b) i t) = entry_value b t ids
              \<and> entry_value b t ids \<noteq> None"
    if "i < length (used_by_data b)" "used_by_data b ! i = (t, ids)" for i t ids
    using all3 [THEN conjunct2, THEN conjunct1, rule_format, OF conjI [OF that]] .
  from b' assms(1) have run: "build_all GITLAB_URL PATH_FILTERS projects = Inr b'"
    by (simp add: build_all_def)
  have pair: "case lookup_mapping (projects_mapping b) target of
                 Some pid \<Rightarrow>
                   (\<exists>e. map_of (projects_data b) pid = Some e \<and>
                        map_of (projects_data b') pid = Some (e\<lparr> used_by := ids \<rparr>))
               | None \<Rightarrow>
                   unknown_id i \<notin> fst ` set (projects_data b) \<and>
                   (\<forall>j. j \<noteq> i \<longrightarrow> unknown_id j \<noteq> unknown_id i) \<and>
                   (\<exists>e. map_of (projects_data b') (unknown_id i) = Some e \<and>
                        e = (placeholder (if target \<in> set (projects_extern b)
                                          then ''role_extern'' else ''role_unknown'') target)
                              \<lparr> used_by := ids \<rparr> \<and>
                        state e = (if target \<in> set (projects_extern b)
                                   then ''role_extern'' else ''role_unknown'') \<and>
                        name e = target \<and> url e = [] \<and> web_url e = [] \<and> used_by e = ids)"
    if i: "i < length (used_by_data b)" and it: "used_by_data b ! i = (target, ids)"
    for i target ids
  proof (cases "lookup_mapping (projects_mapping b) target")
    case None
    from nth [OF i it] None
    have "map_of (projects_data b') (unknown_id i)
            = Some ((placeholder (kind_of (projects_extern b) target) target)\<lparr> used_by := ids \<rparr>)"
      by (simp add: write_key_def entry_value_def)
    moreover have "\<forall>j. j \<noteq> i \<longrightarrow> unknown_id j \<noteq> unknown_id i"
      using unknown_id_inj by blast
    moreover have "unknown_id i \<notin> fst ` set (projects_data b)"
      using h(3) by blast
    ultimately show ?thesis
      unfolding None by (simp add: kind_of_def placeholder_def)
  next
    case (Some pid)
    from nth [OF i it] Some
    have "map_of (projects_data b') pid
            = map_option (\<lambda>e. e\<lparr> used_by := ids \<rparr>) (map_of (projects_data b) pid)"
      and "map_option (\<lambda>e. e\<lparr> used_by := ids \<rparr>) (map_of (projects_data b) pid) \<noteq> None"
      by (simp_all add: write_key_def entry_value_def)
    then obtain e where e: "map_of (projects_data b) pid = Some e" by auto
    with \<open>map_of (projects_data b') pid
            = map_option (\<lambda>e. e\<lparr> used_by := ids \<rparr>) (map_of (projects_data b) pid)\<close>
    have "map_of (projects_data b') pid = Some (e\<lparr> used_by := ids \<rparr>)" by simp
    with e show ?thesis unfolding Some by simp
  qed
  show ?thesis
  proof (intro exI [of _ b'] conjI allI impI)
    show "build_all GITLAB_URL PATH_FILTERS projects = Inr b'" by (rule run)
  next
    fix i target ids
    assume "i < length (used_by_data b) \<and> used_by_data b ! i = (target, ids)"
    then have "i < length (used_by_data b)" "used_by_data b ! i = (target, ids)" by simp_all
    then show "case lookup_mapping (projects_mapping b) target of
                 Some pid \<Rightarrow>
                   (\<exists>e. map_of (projects_data b) pid = Some e \<and>
                        map_of (projects_data b') pid = Some (e\<lparr> used_by := ids \<rparr>))
               | None \<Rightarrow>
                   unknown_id i \<notin> fst ` set (projects_data b) \<and>
                   (\<forall>j. j \<noteq> i \<longrightarrow> unknown_id j \<noteq> unknown_id i) \<and>
                   (\<exists>e. map_of (projects_data b') (unknown_id i) = Some e \<and>
                        e = (placeholder (if target \<in> set (projects_extern b)
                                          then ''role_extern'' else ''role_unknown'') target)
                              \<lparr> used_by := ids \<rparr> \<and>
                        state e = (if target \<in> set (projects_extern b)
                                   then ''role_extern'' else ''role_unknown'') \<and>
                        name e = target \<and> url e = [] \<and> web_url e = [] \<and> used_by e = ids)"
      by (rule pair)
  next
    show "fst ` set (projects_data b') =
             fst ` set (projects_data b)
             \<union> unknown_id ` {j. j < length (used_by_data b)
                                 \<and> lookup_mapping (projects_mapping b) (fst (used_by_data b ! j)) = None}"
      by (rule keys)
  qed
qed

text \<open>
  The play \<^verbatim>\<open>infra/portal\<close> with three dependencies: one resolved, one unknown, one
  external.
\<close>

lemma reconciliation_without_collision_example:
  "\<exists>b b'. traverse example_url [''infra/''] [webserver, portal] = Inr b
     \<and> build_all example_url [''infra/''] [webserver, portal] = Inr b'
     \<and> used_by_data b = [(YStr ''infra/webserver'', [''portal-8'']),
                          (YStr ''infra/ghost'', [''portal-8'']),
                          (YStr ''community.general'', [''portal-8''])]
     \<and> map_option used_by (map_of (projects_data b) ''webserver-12'') = Some []
     \<and> map_option used_by (map_of (projects_data b') ''webserver-12'') = Some [''portal-8'']
     \<and> map_of (projects_data b') (unknown_id 1)
         = Some ((placeholder ''role_unknown'' (YStr ''infra/ghost''))\<lparr> used_by := [''portal-8''] \<rparr>)
     \<and> map_of (projects_data b') (unknown_id 2)
         = Some ((placeholder ''role_extern'' (YStr ''community.general''))
                   \<lparr> used_by := [''portal-8''] \<rparr>)"
proof -
  have "map_sum id (\<lambda>b. (used_by_data b, projects_mapping b, projects_extern b,
                          map_option used_by (map_of (projects_data b) ''webserver-12'')))
          (traverse example_url [''infra/''] [webserver, portal])
        = Inr ([(YStr ''infra/webserver'', [''portal-8'']), (YStr ''infra/ghost'', [''portal-8'']),
                (YStr ''community.general'', [''portal-8''])],
               [(''infra/webserver'', ''webserver-12''), (''infra/portal'', ''portal-8'')],
               [YStr ''community.general''],
               Some [])"
    by code_simp
  from map_sum_Inr [OF this] obtain b where
    tr: "traverse example_url [''infra/''] [webserver, portal] = Inr b"
    and u: "used_by_data b = [(YStr ''infra/webserver'', [''portal-8'']),
                               (YStr ''infra/ghost'', [''portal-8'']),
                               (YStr ''community.general'', [''portal-8''])]"
    and m: "projects_mapping b = [(''infra/webserver'', ''webserver-12''), (''infra/portal'', ''portal-8'')]"
    and x: "projects_extern b = [YStr ''community.general'']"
    and w: "map_option used_by (map_of (projects_data b) ''webserver-12'') = Some []"
    by auto
  have d: "distinct (map project_id [webserver, portal])"
    by (simp add: webserver_def portal_def)
  have n: "\<forall>p\<in>set [webserver, portal]. project_name p \<noteq> ''zzz-unknown''"
    by (simp add: webserver_def portal_def)
  from reconciliation_without_collision [OF tr d n] obtain b' where
    run: "build_all example_url [''infra/''] [webserver, portal] = Inr b'"
    and pairs: "\<forall>i target ids. i < length (used_by_data b) \<and> used_by_data b ! i = (target, ids) \<longrightarrow>
              (case lookup_mapping (projects_mapping b) target of
                 Some pid \<Rightarrow>
                   (\<exists>e. map_of (projects_data b) pid = Some e \<and>
                        map_of (projects_data b') pid = Some (e\<lparr> used_by := ids \<rparr>))
               | None \<Rightarrow>
                   unknown_id i \<notin> fst ` set (projects_data b) \<and>
                   (\<forall>j. j \<noteq> i \<longrightarrow> unknown_id j \<noteq> unknown_id i) \<and>
                   (\<exists>e. map_of (projects_data b') (unknown_id i) = Some e \<and>
                        e = (placeholder (if target \<in> set (projects_extern b)
                                          then ''role_extern'' else ''role_unknown'') target)
                              \<lparr> used_by := ids \<rparr> \<and>
                        state e = (if target \<in> set (projects_extern b)
                                   then ''role_extern'' else ''role_unknown'') \<and>
                        name e = target \<and> url e = [] \<and> web_url e = [] \<and> used_by e = ids))"
    by (elim exE conjE)
  from pairs [rule_format, of 0 "YStr ''infra/webserver''" "[''portal-8'']"] u m
  have p0: "map_option used_by (map_of (projects_data b') ''webserver-12'') = Some [''portal-8'']"
    by auto
  from pairs [rule_format, of 1 "YStr ''infra/ghost''" "[''portal-8'']"] u m x
  have p1: "map_of (projects_data b') (unknown_id 1)
         = Some ((placeholder ''role_unknown'' (YStr ''infra/ghost''))\<lparr> used_by := [''portal-8''] \<rparr>)"
    by simp
  from pairs [rule_format, of 2 "YStr ''community.general''" "[''portal-8'']"] u m x
  have p2: "map_of (projects_data b') (unknown_id 2)
         = Some ((placeholder ''role_extern'' (YStr ''community.general''))
                   \<lparr> used_by := [''portal-8''] \<rparr>)"
    by simp
  from tr run u w p0 p1 p2 show ?thesis by blast
qed

subsection \<open>A dependency without a source\<close>

lemma add_dependency_no_src:
  assumes "map_of m ''include'' = None" and "map_of m ''src'' = None"
      and "map_of m ''name'' = Some dep_name" and "hashable dep_name"
  shows "add_dependency GITLAB_URL p prjid (YMap m) (u, x, c)
           = Inr (Continue (edge_add u dep_name prjid, x @ [dep_name], c @ [no_src_msg p dep_name]))"
  using assms by (simp add: add_dependency_def dep_target_def)

lemma edge_add_member: "prjid \<in> set (declaring (edge_add u t prjid) t)"
  by (simp add: edge_add_declaring)

text \<open>
  A target that is no string, or a string without a slash, is no key of the mapping:
  the traversal records only paths that the group pattern matches.
\<close>

lemma slash_free_unresolved:
  assumes "traversed ps b" and "\<forall>s. target = YStr s \<longrightarrow> slash \<notin> set s"
  shows "lookup_mapping (projects_mapping b) target = None"
proof (rule ccontr)
  assume "lookup_mapping (projects_mapping b) target \<noteq> None"
  then obtain pid where "lookup_mapping (projects_mapping b) target = Some pid" by auto
  from lookup_mapping_Some [OF this] obtain path where
    t: "target = YStr path" and m: "map_of (projects_mapping b) path = Some pid" by blast
  from assms(1) have "\<forall>path pid. map_of (projects_mapping b) path = Some pid \<longrightarrow>
         pid \<in> fst ` set (projects_data b) \<and>
         (\<exists>p\<in>ps. path = path_with_namespace p \<and> pid = prjid_of p \<and> match_group path \<noteq> None)"
    by (simp add: traversed_def)
  with m have "match_group path \<noteq> None" by blast
  with match_group_no_slash [of path] have "slash \<in> set path" by blast
  with assms(2) t show False by simp
qed

text \<open>
  C6, as the spec states it, fails: an entry that lacks \<^verbatim>\<open>src\<close> and lacks
  \<^verbatim>\<open>name\<close> too, such as \<^verbatim>\<open>{role: common}\<close>, makes \<^verbatim>\<open>add_dependencies\<close> raise
  \<^verbatim>\<open>KeyError\<close> from the handler that reads \<^verbatim>\<open>dep["name"]\<close>.
\<close>

theorem dependency_without_name_counterexample:
  "py_in ''include'' role_dep = Inr False
   \<and> subscript role_dep ''src'' = Inl (KeyError (YStr ''src''))
   \<and> add_dependencies example_url webserver ''webserver-12'' (YList [role_dep]) ([], [], [])
       = Inl (KeyError (YStr ''name''))"
  by (simp add: role_dep_def add_dependencies_def add_dependency_def dep_target_def)

text \<open>
  C6, amended. For a dependency entry that is a mapping without \<^verbatim>\<open>include\<close> and
  without \<^verbatim>\<open>src\<close> but with a hashable \<^verbatim>\<open>name\<close>, reached after entries \<open>pre\<close>
  that hold no include: \<^verbatim>\<open>add_dependencies\<close> does not fail on it; it prints a
  warning (yellow), adds the declaring identity under the name as target, and appends
  the name to the external list. And after a traversal that returns the tables \<open>b\<close>
  (repositories with distinct ids, none named \<^verbatim>\<open>zzz-unknown\<close>), a pair of the edge
  table at position \<open>i\<close> whose target is in the external list and is no string with a
  slash (as \<^verbatim>\<open>community.general\<close>) ends as the placeholder entity
  \<^verbatim>\<open>zzz-unknown-\<close>\<open>i\<close>, named as the target, of kind \<^verbatim>\<open>role_extern\<close>, with the
  declaring identities as its \<^verbatim>\<open>used_by\<close>.
\<close>

theorem dependency_without_src:
  "(map_of m ''include'' = None \<and> map_of m ''src'' = None \<and> map_of m ''name'' = Some dep_name
      \<and> hashable dep_name \<and> list_all (\<lambda>e. py_in ''include'' e \<noteq> Inr True) pre \<longrightarrow>
      add_dependencies GITLAB_URL p prjid (YList (pre @ [YMap m])) s =
        (case add_dependencies GITLAB_URL p prjid (YList pre) s of
           Inl e \<Rightarrow> Inl e
         | Inr (u, x, c) \<Rightarrow>
             Inr (edge_add u dep_name prjid, x @ [dep_name], c @ [no_src_msg p dep_name]))
      \<and> (\<exists>template args. no_src_msg p dep_name = Msg Yellow template args)
      \<and> (\<forall>u. prjid \<in> set (declaring (edge_add u dep_name prjid) dep_name)))
   \<and> (traverse GITLAB_URL PATH_FILTERS projects = Inr b
        \<and> distinct (map project_id projects)
        \<and> (\<forall>q\<in>set projects. project_name q \<noteq> ''zzz-unknown'')
        \<and> i < length (used_by_data b) \<and> used_by_data b ! i = (target, ids)
        \<and> target \<in> set (projects_extern b)
        \<and> (\<forall>path. target = YStr path \<longrightarrow> slash \<notin> set path) \<longrightarrow>
      (\<exists>b' e. build_all GITLAB_URL PATH_FILTERS projects = Inr b'
           \<and> map_of (projects_data b') (unknown_id i) = Some e
           \<and> name e = target \<and> state e = ''role_extern'' \<and> used_by e = ids
           \<and> url e = [] \<and> web_url e = []))"
proof (intro conjI impI)
  assume a: "map_of m ''include'' = None \<and> map_of m ''src'' = None \<and> map_of m ''name'' = Some dep_name
      \<and> hashable dep_name \<and> list_all (\<lambda>e. py_in ''include'' e \<noteq> Inr True) pre"
  then have body: "\<And>u x c. add_dependency GITLAB_URL p prjid (YMap m) (u, x, c)
           = Inr (Continue (edge_add u dep_name prjid, x @ [dep_name], c @ [no_src_msg p dep_name]))"
    by (simp add: add_dependency_no_src)
  from a have pre: "list_all (\<lambda>e. py_in ''include'' e \<noteq> Inr True) pre" by simp
  show "add_dependencies GITLAB_URL p prjid (YList (pre @ [YMap m])) s =
        (case add_dependencies GITLAB_URL p prjid (YList pre) s of
           Inl e \<Rightarrow> Inl e
         | Inr (u, x, c) \<Rightarrow>
             Inr (edge_add u dep_name prjid, x @ [dep_name], c @ [no_src_msg p dep_name]))"
  proof (cases "dep_loop GITLAB_URL p prjid pre s")
    case (Inl e)
    then show ?thesis by (simp add: add_dependencies_def dep_loop_append [OF pre])
  next
    case (Inr s')
    obtain u x c where s': "s' = (u, x, c)" by (cases s') auto
    with Inr show ?thesis by (simp add: add_dependencies_def dep_loop_append [OF pre] body)
  qed
  show "\<exists>template args. no_src_msg p dep_name = Msg Yellow template args"
    by (simp add: no_src_msg_def)
  show "\<forall>u. prjid \<in> set (declaring (edge_add u dep_name prjid) dep_name)"
    by (simp add: edge_add_member)
next
  assume a: "traverse GITLAB_URL PATH_FILTERS projects = Inr b
        \<and> distinct (map project_id projects)
        \<and> (\<forall>q\<in>set projects. project_name q \<noteq> ''zzz-unknown'')
        \<and> i < length (used_by_data b) \<and> used_by_data b ! i = (target, ids)
        \<and> target \<in> set (projects_extern b)
        \<and> (\<forall>path. target = YStr path \<longrightarrow> slash \<notin> set path)"
  then have tr: "traverse GITLAB_URL PATH_FILTERS projects = Inr b"
    and d: "distinct (map project_id projects)"
    and n: "\<forall>q\<in>set projects. project_name q \<noteq> ''zzz-unknown''"
    and i: "i < length (used_by_data b)" and it: "used_by_data b ! i = (target, ids)"
    and ext: "target \<in> set (projects_extern b)"
    and sl: "\<forall>path. target = YStr path \<longrightarrow> slash \<notin> set path"
    by simp_all
  note t = traverse_traversed [OF tr]
  note h = traversed_reconcile_hyps [OF t d n]
  from slash_free_unresolved [OF t sl]
  have un: "lookup_mapping (projects_mapping b) target = None" .
  from reconcile_pairs [OF h(4) h(1) h(2) h(3)] obtain b' where
    all3: "reconcile 0 (used_by_data b) b = Inr b' \<and>
           (\<forall>i t ids. i < length (used_by_data b) \<and> used_by_data b ! i = (t, ids) \<longrightarrow>
              map_of (projects_data b') (write_key (projects_mapping b) i t) = entry_value b t ids
              \<and> entry_value b t ids \<noteq> None) \<and>
           fst ` set (projects_data b') =
             fst ` set (projects_data b)
             \<union> unknown_id ` {j. j < length (used_by_data b)
                                 \<and> lookup_mapping (projects_mapping b) (fst (used_by_data b ! j)) = None}" ..
  from all3 tr have run: "build_all GITLAB_URL PATH_FILTERS projects = Inr b'"
    by (simp add: build_all_def)
  from all3 [THEN conjunct2, THEN conjunct1, rule_format, OF conjI [OF i it]] un ext
  have "map_of (projects_data b') (unknown_id i)
          = Some ((placeholder ''role_extern'' target)\<lparr> used_by := ids \<rparr>)"
    by (simp add: write_key_def entry_value_def kind_of_def)
  with run show "\<exists>b' e. build_all GITLAB_URL PATH_FILTERS projects = Inr b'
           \<and> map_of (projects_data b') (unknown_id i) = Some e
           \<and> name e = target \<and> state e = ''role_extern'' \<and> used_by e = ids
           \<and> url e = [] \<and> web_url e = []"
    by (simp add: placeholder_def)
qed

text \<open>
  The play \<^verbatim>\<open>infra/portal\<close>, whose third dependency is
  \<^verbatim>\<open>{name: community.general}\<close>.
\<close>

theorem dependency_without_src_witness:
  "add_dependencies example_url portal ''portal-8''
      (YList ([webserver_dep, ghost_dep] @ [YMap [(''name'', YStr ''community.general'')]]))
      ([], [], [])
     = Inr ([(YStr ''infra/webserver'', [''portal-8'']), (YStr ''infra/ghost'', [''portal-8'']),
             (YStr ''community.general'', [''portal-8''])],
            [YStr ''community.general''],
            [no_src_msg portal (YStr ''community.general'')])
   \<and> (\<exists>b' e. build_all example_url [''infra/''] [webserver, portal] = Inr b'
          \<and> map_of (projects_data b') (unknown_id 2) = Some e
          \<and> name e = YStr ''community.general'' \<and> state e = ''role_extern''
          \<and> used_by e = [''portal-8''] \<and> url e = [] \<and> web_url e = [])"
proof -
  have pre: "add_dependencies example_url portal ''portal-8'' (YList [webserver_dep, ghost_dep])
               ([], [], [])
             = Inr ([(YStr ''infra/webserver'', [''portal-8'']),
                     (YStr ''infra/ghost'', [''portal-8''])], [], [])"
    by code_simp
  have h: "map_of [(''name'', YStr ''community.general'')] ''include'' = None
           \<and> map_of [(''name'', YStr ''community.general'')] ''src'' = None
           \<and> map_of [(''name'', YStr ''community.general'')] ''name'' = Some (YStr ''community.general'')
           \<and> hashable (YStr ''community.general'')
           \<and> list_all (\<lambda>e. py_in ''include'' e \<noteq> Inr True) [webserver_dep, ghost_dep]"
    by (simp add: webserver_dep_def ghost_dep_def)
  from dependency_without_src [THEN conjunct1, rule_format, OF h,
         of example_url portal "''portal-8''" "([], [], [])"]
  have link: "add_dependencies example_url portal ''portal-8''
      (YList ([webserver_dep, ghost_dep] @ [YMap [(''name'', YStr ''community.general'')]]))
      ([], [], [])
     = Inr ([(YStr ''infra/webserver'', [''portal-8'']), (YStr ''infra/ghost'', [''portal-8'']),
             (YStr ''community.general'', [''portal-8''])],
            [YStr ''community.general''],
            [no_src_msg portal (YStr ''community.general'')])"
    by (simp add: pre edge_add_def)
  have "map_sum id (\<lambda>b. (used_by_data b, projects_extern b))
          (traverse example_url [''infra/''] [webserver, portal])
        = Inr ([(YStr ''infra/webserver'', [''portal-8'']), (YStr ''infra/ghost'', [''portal-8'']),
                (YStr ''community.general'', [''portal-8''])],
               [YStr ''community.general''])"
    by code_simp
  from map_sum_Inr [OF this] obtain b where
    tr: "traverse example_url [''infra/''] [webserver, portal] = Inr b"
    and u: "used_by_data b = [(YStr ''infra/webserver'', [''portal-8'']),
                               (YStr ''infra/ghost'', [''portal-8'']),
                               (YStr ''community.general'', [''portal-8''])]"
    and x: "projects_extern b = [YStr ''community.general'']"
    by auto
  have "traverse example_url [''infra/''] [webserver, portal] = Inr b
        \<and> distinct (map project_id [webserver, portal])
        \<and> (\<forall>q\<in>set [webserver, portal]. project_name q \<noteq> ''zzz-unknown'')
        \<and> 2 < length (used_by_data b)
        \<and> used_by_data b ! 2 = (YStr ''community.general'', [''portal-8''])
        \<and> YStr ''community.general'' \<in> set (projects_extern b)
        \<and> (\<forall>path. YStr ''community.general'' = YStr path \<longrightarrow> slash \<notin> set path)"
    using tr u x by (simp add: webserver_def portal_def slash_def)
  from dependency_without_src [THEN conjunct2, rule_format, OF this]
  have "\<exists>b' e. build_all example_url [''infra/''] [webserver, portal] = Inr b'
          \<and> map_of (projects_data b') (unknown_id 2) = Some e
          \<and> name e = YStr ''community.general'' \<and> state e = ''role_extern''
          \<and> used_by e = [''portal-8''] \<and> url e = [] \<and> web_url e = []" .
  with link show ?thesis by (rule conjI)
qed

subsection \<open>Scenarios\<close>

text \<open>
  C8. The role repository \<^verbatim>\<open>webserver\<close> (id 12, at \<^verbatim>\<open>infra/webserver\<close>) and the play
  repository \<^verbatim>\<open>site\<close> (id 5, at \<^verbatim>\<open>infra/site\<close>), listed in this order, with the
  filter \<^verbatim>\<open>infra/\<close> and the host \<^verbatim>\<open>gitlab.example.com\<close>. The role alone yields the
  one entity \<^verbatim>\<open>webserver-12\<close> of kind \<^verbatim>\<open>role\<close> with an empty \<^verbatim>\<open>used_by\<close>. With
  the play, the traversal leaves the entity \<^verbatim>\<open>webserver-12\<close> of kind \<^verbatim>\<open>role\<close> with
  an empty \<^verbatim>\<open>used_by\<close> and the edge table \<^verbatim>\<open>{"infra/webserver": ["site-5"]}\<close>, and in
  the result of the build the \<^verbatim>\<open>used_by\<close> of \<^verbatim>\<open>webserver-12\<close> is \<^verbatim>\<open>["site-5"]\<close>.
\<close>

theorem webserver_site_scenario:
  "prjid_of webserver = ''webserver-12'' \<and> prjid_of site = ''site-5''
   \<and> generate_projects_data example_url [''infra/''] [webserver]
       = Inr [(''webserver-12'',
               \<lparr> description = Some (YStr ''Installs nginx''), platforms = Some (YList []),
                 galaxy_tags = Some (YList []), state = ''role'', name = YStr ''webserver'',
                 url = ''git@gitlab.example.com:infra/webserver.git'',
                 web_url = ''https://gitlab.example.com/infra/webserver'',
                 group = ''infra'', git_tags = [], used_by = [] \<rparr>)]
   \<and> map_sum id (\<lambda>b. map_option (\<lambda>e. (state e, used_by e)) (map_of (projects_data b) ''webserver-12''))
        (traverse example_url [''infra/''] [webserver, site])
       = Inr (Some (''role'', []))
   \<and> map_sum id used_by_data (traverse example_url [''infra/''] [webserver, site])
       = Inr [(YStr ''infra/webserver'', [''site-5''])]
   \<and> map_sum id (\<lambda>b. map_option used_by (map_of b ''webserver-12''))
        (generate_projects_data example_url [''infra/''] [webserver, site])
       = Inr (Some [''site-5''])"
  by code_simp

text \<open>
  C4 does not hold of the code: the loop over the filters has no \<^verbatim>\<open>break\<close>, so a
  repository is processed once for every filter that matches its path. With the
  filters \<^verbatim>\<open>infra/\<close> and \<^verbatim>\<open>infra/web\<close>, the role \<^verbatim>\<open>infra/webserver\<close> has its
  \<^verbatim>\<open>meta/main.yml\<close> fetched twice and is linked twice.
\<close>

theorem overlapping_filters_process_twice:
  "re_match ''infra/'' (path_with_namespace webserver)
   \<and> re_match ''infra/web'' (path_with_namespace webserver)
   \<and> map_sum id fetched (traverse example_url [''infra/'', ''infra/web''] [webserver])
       = Inr [(12, ''meta'', ''main.yml''), (12, ''meta'', ''main.yml'')]
   \<and> map_sum id visited (traverse example_url [''infra/'', ''infra/web''] [webserver])
       = Inr [(12, Linked), (12, Linked)]"
  by code_simp

subsection \<open>Two runs of the build\<close>

lemma observed_alike_fields:
  assumes "observed_alike p q"
  shows "project_id p = project_id q" "project_name p = project_name q" "archived p = archived q"
    "path_with_namespace p = path_with_namespace q" "ssh_url_to_repo p = ssh_url_to_repo q"
    "project_web_url p = project_web_url q" "tags_list p = tags_list q"
  using assms by (simp_all add: observed_alike_def)

lemma find_Some_mem: "find P xs = Some x \<Longrightarrow> x \<in> set xs"
  by (induction xs) (auto split: if_splits)

lemma get_yaml_content_alike:
  assumes "observed_alike p q" and "path = ''meta'' \<or> path = ''roles''"
  shows "get_yaml_content p path f c = get_yaml_content q path f c"
proof -
  from assms have tree: "repository_tree p path = repository_tree q path"
    and all: "\<And>items. repository_tree p path = Inr items \<Longrightarrow>
                list_all (\<lambda>item. repository_blob p (snd item) = repository_blob q (snd item)) items"
    by (auto simp: observed_alike_def)
  have blobs: "repository_blob p (snd item) = repository_blob q (snd item)"
    if "repository_tree p path = Inr items" "item \<in> set items" for items item
    using all [OF that(1)] that(2) unfolding list_all_iff by (rule bspec)
  note name = observed_alike_fields(2) [OF assms(1)]
  show ?thesis
  proof (cases "repository_tree p path")
    case (Inl e)
    moreover from Inl tree have "repository_tree q path = Inl e" by simp
    ultimately show ?thesis
      by (simp add: get_yaml_content_def name split: exn.splits)
  next
    case (Inr items)
    from Inr tree have q: "repository_tree q path = Inr items" by simp
    show ?thesis
    proof (cases "find (\<lambda>x. fst x = f) items")
      case None
      with Inr q show ?thesis by (simp add: get_yaml_content_def)
    next
      case (Some item)
      from blobs [OF Inr find_Some_mem [OF Some]]
      have "repository_blob p (snd item) = repository_blob q (snd item)" .
      with Some Inr q show ?thesis by (simp add: get_yaml_content_def)
    qed
  qed
qed

lemma project_group_alike:
  assumes "observed_alike p q"
  shows "project_group p = project_group q"
  unfolding project_group_def observed_alike_fields [OF assms] ..

lemma set_role_attributes_alike:
  assumes "observed_alike p q"
  shows "set_role_attributes p content = set_role_attributes q content"
  unfolding set_role_attributes_def project_group_alike [OF assms] observed_alike_fields [OF assms] ..

lemma set_play_attributes_alike:
  assumes "observed_alike p q"
  shows "set_play_attributes p content = set_play_attributes q content"
  unfolding set_play_attributes_def project_group_alike [OF assms] observed_alike_fields [OF assms] ..

lemma add_dependency_alike:
  assumes "observed_alike p q"
  shows "add_dependency GITLAB_URL p prjid dep s = add_dependency GITLAB_URL q prjid dep s"
  unfolding add_dependency_def dep_target_def include_msg_def no_src_msg_def
    observed_alike_fields [OF assms] ..

lemma dep_loop_alike:
  assumes "observed_alike p q"
  shows "dep_loop GITLAB_URL p prjid deps s = dep_loop GITLAB_URL q prjid deps s"
  by (induction deps arbitrary: s)
     (simp_all add: add_dependency_alike [OF assms] cong: sum.case_cong loop.case_cong)

lemma prjid_of_alike:
  assumes "observed_alike p q"
  shows "prjid_of p = prjid_of q"
  unfolding prjid_of_def observed_alike_fields [OF assms] ..

lemma run_linker_alike:
  assumes "observed_alike p q"
  shows "run_linker GITLAB_URL p dep_list b = run_linker GITLAB_URL q dep_list b"
  unfolding run_linker_def add_dependencies_def dep_loop_alike [OF assms] prjid_of_alike [OF assms]
    observed_alike_fields [OF assms] ..

lemma record_entity_alike:
  assumes "observed_alike p q"
  shows "record_entity p attrs b = record_entity q attrs b"
  unfolding record_entity_def prjid_of_alike [OF assms] observed_alike_fields [OF assms] ..

lemma role_found_alike:
  assumes "observed_alike p q"
  shows "role_found GITLAB_URL p content b = role_found GITLAB_URL q content b"
  unfolding role_found_def symlink_msg_def set_role_attributes_alike [OF assms]
    run_linker_alike [OF assms] record_entity_alike [OF assms] observed_alike_fields [OF assms] ..

lemma play_attempt_alike:
  assumes "observed_alike p q"
  shows "play_attempt GITLAB_URL p b = play_attempt GITLAB_URL q b"
proof -
  have g: "get_yaml_content p ''roles'' f c = get_yaml_content q ''roles'' f c" for f c
    by (rule get_yaml_content_alike [OF assms]) simp
  show ?thesis
    unfolding play_attempt_def symlink_msg_def g set_play_attributes_alike [OF assms]
      run_linker_alike [OF assms] record_entity_alike [OF assms] observed_alike_fields [OF assms] ..
qed

lemma process_project_alike:
  assumes "observed_alike p q"
  shows "process_project GITLAB_URL p b = process_project GITLAB_URL q b"
proof -
  have g: "get_yaml_content p ''meta'' f c = get_yaml_content q ''meta'' f c" for f c
    by (rule get_yaml_content_alike [OF assms]) simp
  show ?thesis
    unfolding process_project_def g role_found_alike [OF assms] play_attempt_alike [OF assms]
      observed_alike_fields [OF assms] ..
qed

lemma filter_loop_alike:
  assumes "observed_alike p q"
  shows "filter_loop GITLAB_URL p paths b = filter_loop GITLAB_URL q paths b"
  by (induction paths arbitrary: b)
     (simp_all add: process_project_alike [OF assms] observed_alike_fields [OF assms]
               cong: sum.case_cong if_cong)

lemma archived_msg_alike:
  assumes "observed_alike p q"
  shows "archived_msg p = archived_msg q"
  unfolding archived_msg_def observed_alike_fields [OF assms] ..

lemma project_loop_alike:
  "list_all2 observed_alike ps qs \<Longrightarrow>
     project_loop GITLAB_URL PATH_FILTERS ps b = project_loop GITLAB_URL PATH_FILTERS qs b"
proof (induction ps qs arbitrary: b rule: list_all2_induct)
  case Nil
  then show ?case by simp
next
  case (Cons p ps q qs)
  from Cons.IH show ?case
    by (simp add: filter_loop_alike [OF Cons.hyps(1)] archived_msg_alike [OF Cons.hyps(1)]
                  observed_alike_fields [OF Cons.hyps(1)] cong: sum.case_cong if_cong)
qed

lemma observed_alike_refl: "observed_alike p p"
  by (auto simp: observed_alike_def list_all_iff split: sum.splits)

text \<open>
  C9. Two runs of the build with the same host and filters, against snapshots that
  list the repositories in the same order and are observed alike repository by
  repository (an unchanged snapshot is observed like itself), return the same result:
  the same entities under the same identities, placeholder identities included, or the
  same exception. The build reads nothing else, and starts from empty tables and the
  counter 0 on every run.
\<close>

theorem build_depends_on_observations_only:
  assumes "list_all2 observed_alike projects projects'"
  shows "build_all GITLAB_URL PATH_FILTERS projects = build_all GITLAB_URL PATH_FILTERS projects'
         \<and> generate_projects_data GITLAB_URL PATH_FILTERS projects
             = generate_projects_data GITLAB_URL PATH_FILTERS projects'"
  using project_loop_alike [OF assms]
  by (simp add: generate_projects_data_def build_all_def traverse_def)

text \<open>
  The snapshot of the role and the play, against itself and against one whose role has
  a further directory.
\<close>

theorem build_depends_on_observations_only_witness:
  "list_all2 observed_alike [webserver, site] [webserver_with_docs, site]
   \<and> repository_tree webserver ''docs'' \<noteq> repository_tree webserver_with_docs ''docs''
   \<and> generate_projects_data example_url [''infra/''] [webserver, site]
       = generate_projects_data example_url [''infra/''] [webserver_with_docs, site]
   \<and> generate_projects_data example_url [''infra/''] [webserver, site]
       = generate_projects_data example_url [''infra/''] [webserver, site]"
proof -
  have a: "list_all2 observed_alike [webserver, site] [webserver_with_docs, site]"
    by (simp add: observed_alike_refl)
       (simp add: observed_alike_def webserver_with_docs_def webserver_def no_blob_def)
  have b: "list_all2 observed_alike [webserver, site] [webserver, site]"
    by (simp add: observed_alike_refl)
  have d: "repository_tree webserver ''docs'' \<noteq> repository_tree webserver_with_docs ''docs''"
    by (simp add: webserver_with_docs_def webserver_def)
  from build_depends_on_observations_only [OF a, of example_url "[''infra/'']"]
       build_depends_on_observations_only [OF b, of example_url "[''infra/'']"] a d
  show ?thesis by blast
qed

end
